theory Spec2Isabelle
  imports Main "HOL-Library.Sublist"
begin

section \<open>Errors\<close>

text \<open>
  Go errors as values. \<open>ResponseError\<close> is \<open>*azcore.ResponseError\<close> with its
  \<open>StatusCode\<close> and its text; \<open>ErrorString\<close> is what \<open>errors.New\<close> and a
  \<open>fmt.Errorf\<close> without \<open>%w\<close> build (and every other opaque error);
  \<open>WrapError p e\<close> is \<open>fmt.Errorf(p + "%w", e)\<close>, which keeps \<open>e\<close> for
  \<open>errors.As\<close> and prints as \<open>p\<close> followed by the text of \<open>e\<close>.
\<close>

datatype error =
    ResponseError int string
  | ErrorString string
  | WrapError string error

fun Error :: "error \<Rightarrow> string" where
  "Error (ResponseError code msg) = msg"
| "Error (ErrorString s) = s"
| "Error (WrapError p e) = p @ Error e"

text \<open>\<open>errors.As(err, &detailed)\<close> for a \<open>*azcore.ResponseError\<close> target: the status
  code of the first response error of the chain, if there is one.\<close>

fun errors_As :: "error \<Rightarrow> int option" where
  "errors_As (ResponseError code msg) = Some code"
| "errors_As (ErrorString s) = None"
| "errors_As (WrapError p e) = errors_As e"

definition StatusNotFound :: int where
  "StatusNotFound = 404"

text \<open>What a Go function returning \<open>error\<close> does: return nil, return an error, or
  panic on a nil pointer dereference.\<close>

datatype outcome = Ok | Err error | Panic

section \<open>Data of the armdns client\<close>

text \<open>
  Pointers that may be nil are options. A slice is a list, the nil slice is the empty
  list (\<open>len\<close> and \<open>range\<close> do not tell them apart, and the one test
  \<open>TxtRecords != nil\<close> only guards a \<open>range\<close>).
\<close>

record TxtRecord =
  Value :: "string option list"

record RecordSetProperties =
  PropertiesTTL :: "int option"
  TxtRecords :: "TxtRecord option list"

record RecordSet =
  Name :: "string option"
  Properties :: "RecordSetProperties option"

record Zone =
  ZoneName :: "string option"

text \<open>The zero value \<open>RecordSetsClientGetResponse{}\<close> that the client returns
  together with an error.\<close>

definition zeroRecordSet :: RecordSet where
  "zeroRecordSet = \<lparr>Name = None, Properties = None\<rparr>"

text \<open>\<open>to.String\<close> and \<open>to.Int64Ptr\<close> of package \<open>to\<close>.\<close>

definition to_String :: "string option \<Rightarrow> string" where
  "to_String s = (case s of Some v \<Rightarrow> v | None \<Rightarrow> [])"

definition to_Int64Ptr :: "int \<Rightarrow> int option" where
  "to_Int64Ptr i = Some i"

section \<open>Configuration and provider\<close>

datatype cloud_Configuration =
    AzureChina
  | AzurePublic
  | AzureGovernment
  | Configuration string

datatype http_Client = DefaultClient | Client nat

record Config =
  ClientID :: string
  ClientSecret :: string
  TenantID :: string
  SubscriptionID :: string
  ResourceGroup :: string
  PrivateZone :: bool
  MetadataEndpoint :: string
  CloudConfig :: cloud_Configuration
  PropagationTimeout :: int
  PollingInterval :: int
  TTL :: int
  HTTPClient :: "http_Client option"

text \<open>An \<open>*azidentity.EnvironmentCredential\<close> is opaque: a handle.\<close>

datatype EnvironmentCredential = Credential nat

record ClientOptions =
  Cloud :: cloud_Configuration

record EnvironmentCredentialOptions =
  Options :: ClientOptions

record dnsProvider =
  config :: Config
  authorizer :: EnvironmentCredential

record DNSProvider =
  provider :: dnsProvider

section \<open>The world outside the package\<close>

text \<open>
  Every call that leaves the process is written to a log, so that a statement can say
  which calls an operation made.
\<close>

datatype call =
    FindZone string
  | ZonesGet string string
  | RecordSetsGet string string string
  | RecordSetsCreateOrUpdate string string string RecordSet
  | RecordSetsDelete string string string

text \<open>
  The DNS service behind the armdns clients: zones and TXT record sets, keyed by
  resource group, zone name (and relative record name). \<open>fault\<close> lets the service
  refuse any call with any error (authorization, throttling, a not-found report).
\<close>

record backend =
  zones :: "string \<times> string \<rightharpoonup> Zone"
  recordSets :: "string \<times> string \<times> string \<rightharpoonup> RecordSet"
  fault :: "call \<Rightarrow> error option"
  calls :: "call list"

definition logCall :: "call \<Rightarrow> backend \<Rightarrow> backend" where
  "logCall c b = b\<lparr>calls := calls b @ [c]\<rparr>"

definition dc_Get :: "backend \<Rightarrow> string \<Rightarrow> string \<Rightarrow> (error + Zone) \<times> backend" where
  "dc_Get b resourceGroup zoneName =
     (let c = ZonesGet resourceGroup zoneName; b' = logCall c b in
      case fault b c of
        Some err \<Rightarrow> (Inl err, b')
      | None \<Rightarrow>
          (case zones b (resourceGroup, zoneName) of
             None \<Rightarrow> (Inl (ResponseError StatusNotFound ''ResourceNotFound''), b')
           | Some z \<Rightarrow> (Inr z, b')))"

definition rsc_Get ::
  "backend \<Rightarrow> string \<Rightarrow> string \<Rightarrow> string \<Rightarrow> (error + RecordSet) \<times> backend" where
  "rsc_Get b resourceGroup zone subDomain =
     (let c = RecordSetsGet resourceGroup zone subDomain; b' = logCall c b in
      case fault b c of
        Some err \<Rightarrow> (Inl err, b')
      | None \<Rightarrow>
          (case recordSets b (resourceGroup, zone, subDomain) of
             None \<Rightarrow> (Inl (ResponseError StatusNotFound ''NotFound''), b')
           | Some rs \<Rightarrow> (Inr rs, b')))"

definition rsc_CreateOrUpdate ::
  "backend \<Rightarrow> string \<Rightarrow> string \<Rightarrow> string \<Rightarrow> RecordSet \<Rightarrow> error option \<times> backend" where
  "rsc_CreateOrUpdate b resourceGroup zone subDomain rec =
     (let c = RecordSetsCreateOrUpdate resourceGroup zone subDomain rec; b' = logCall c b in
      case fault b c of
        Some err \<Rightarrow> (Some err, b')
      | None \<Rightarrow>
          (None, b'\<lparr>recordSets := (recordSets b')((resourceGroup, zone, subDomain) \<mapsto> rec)\<rparr>))"

definition rsc_Delete ::
  "backend \<Rightarrow> string \<Rightarrow> string \<Rightarrow> string \<Rightarrow> error option \<times> backend" where
  "rsc_Delete b resourceGroup zone subDomain =
     (let c = RecordSetsDelete resourceGroup zone subDomain; b' = logCall c b in
      case fault b c of
        Some err \<Rightarrow> (Some err, b')
      | None \<Rightarrow>
          (None, b'\<lparr>recordSets := (recordSets b')((resourceGroup, zone, subDomain) := None)\<rparr>))"

text \<open>
  The helpers of packages \<open>dns01\<close>, \<open>env\<close>, \<open>armdns\<close> and \<open>azidentity\<close> that the
  provider calls and whose code is not part of the sources: parameters of the model.
  \<open>GetOrFile\<close> is \<open>env.GetOrFile\<close> (the empty string for an unset variable).
\<close>

record externals =
  GetOrFile :: "string \<Rightarrow> string"
  GetOrDefaultInt :: "string \<Rightarrow> int \<Rightarrow> int"
  GetOrDefaultSecond :: "string \<Rightarrow> int \<Rightarrow> int"
  GetOrDefaultBool :: "string \<Rightarrow> bool \<Rightarrow> bool"
  GetRecord :: "string \<Rightarrow> string \<Rightarrow> string \<times> string"
  FindZoneByFqdn :: "string \<Rightarrow> error + string"
  ExtractSubDomain :: "string \<Rightarrow> string \<Rightarrow> error + string"
  NewZonesClient :: "string \<Rightarrow> EnvironmentCredential \<Rightarrow> error option"
  NewRecordSetsClient :: "string \<Rightarrow> EnvironmentCredential \<Rightarrow> error option"
  NewEnvironmentCredential :: "EnvironmentCredentialOptions \<Rightarrow> error + EnvironmentCredential"

text \<open>Modelled from the spec: \<open>dns01.UnFqdn\<close> is not among the sources. A zone name
  in canonical form has no trailing separator; the one trailing dot of a name is
  removed.\<close>

definition UnFqdn :: "string \<Rightarrow> string" where
  "UnFqdn name = (if name \<noteq> [] \<and> last name = CHR ''.'' then butlast name else name)"

definition EnvEnvironment :: string where "EnvEnvironment = ''AZURE_ENVIRONMENT''"
definition EnvSubscriptionID :: string where "EnvSubscriptionID = ''AZURE_SUBSCRIPTION_ID''"
definition EnvResourceGroup :: string where "EnvResourceGroup = ''AZURE_RESOURCE_GROUP''"
definition EnvTenantID :: string where "EnvTenantID = ''AZURE_TENANT_ID''"
definition EnvClientID :: string where "EnvClientID = ''AZURE_CLIENT_ID''"
definition EnvClientSecret :: string where "EnvClientSecret = ''AZURE_CLIENT_SECRET''"
definition EnvZoneName :: string where "EnvZoneName = ''AZURE_ZONE_NAME''"
definition EnvPrivateZone :: string where "EnvPrivateZone = ''AZURE_PRIVATE_ZONE''"
definition EnvTTL :: string where "EnvTTL = ''AZURE_TTL''"
definition EnvPropagationTimeout :: string where
  "EnvPropagationTimeout = ''AZURE_PROPAGATION_TIMEOUT''"
definition EnvPollingInterval :: string where
  "EnvPollingInterval = ''AZURE_POLLING_INTERVAL''"

section \<open>Construction of the provider\<close>

text \<open>Durations are nanoseconds.\<close>

definition NewDefaultConfig :: "externals \<Rightarrow> Config" where
  "NewDefaultConfig x =
     \<lparr>ClientID = [], ClientSecret = [], TenantID = [],
      SubscriptionID = [], ResourceGroup = [], PrivateZone = False,
      MetadataEndpoint = [],
      CloudConfig = AzurePublic,
      PropagationTimeout = GetOrDefaultSecond x EnvPropagationTimeout (2 * 60 * 1000000000),
      PollingInterval = GetOrDefaultSecond x EnvPollingInterval (2 * 1000000000),
      TTL = GetOrDefaultInt x EnvTTL 60,
      HTTPClient = None\<rparr>"

definition NewDNSProviderConfig :: "externals \<Rightarrow> Config option \<Rightarrow> error + DNSProvider" where
  "NewDNSProviderConfig x cfg =
     (case cfg of
        None \<Rightarrow> Inl (ErrorString ''azure: the configuration of the DNS provider is nil'')
      | Some config0 \<Rightarrow>
          (let config1 =
                 (if HTTPClient config0 = None then config0\<lparr>HTTPClient := Some DefaultClient\<rparr>
                  else config0)
           in
           if SubscriptionID config1 = [] then
             Inl (ErrorString ''azure: SubscriptionID is missing'')
           else if ResourceGroup config1 = [] then
             Inl (ErrorString ''azure: ResourceGroup is missing'')
           else
             (let clientOpts = \<lparr>Cloud = AzureChina\<rparr> in
              case NewEnvironmentCredential x \<lparr>Options = clientOpts\<rparr> of
                Inl err \<Rightarrow> Inl (WrapError ''azidentity.NewEnvironmentCredential failed: '' err)
              | Inr cred \<Rightarrow>
                  Inr \<lparr>provider = \<lparr>config = config1, authorizer = cred\<rparr>\<rparr>)))"

definition NewDNSProvider :: "externals \<Rightarrow> error + DNSProvider" where
  "NewDNSProvider x =
     (let config0 = NewDefaultConfig x;
          environmentName = GetOrFile x EnvEnvironment;
          selected =
            (if environmentName \<noteq> [] then
               (if environmentName = ''china'' then Inr (config0\<lparr>CloudConfig := AzureChina\<rparr>)
                else if environmentName = ''german'' then
                  Inr (config0\<lparr>CloudConfig := Configuration ''https://login.microsoftonline.de/''\<rparr>)
                else if environmentName = ''public'' then
                  Inr (config0\<lparr>CloudConfig := AzurePublic\<rparr>)
                else if environmentName = ''usgovernment'' then
                  Inr (config0\<lparr>CloudConfig := AzureGovernment\<rparr>)
                else Inl (ErrorString (''azure: unknown environment '' @ environmentName)))
             else Inr config0)
      in
      case selected of
        Inl err \<Rightarrow> Inl err
      | Inr config1 \<Rightarrow>
          NewDNSProviderConfig x
            (Some (config1\<lparr>SubscriptionID := GetOrFile x EnvSubscriptionID,
                           ResourceGroup := GetOrFile x EnvResourceGroup,
                           ClientSecret := GetOrFile x EnvClientSecret,
                           ClientID := GetOrFile x EnvClientID,
                           TenantID := GetOrFile x EnvTenantID,
                           PrivateZone := GetOrDefaultBool x EnvPrivateZone False\<rparr>)))"

definition Timeout :: "dnsProvider \<Rightarrow> int \<times> int" where
  "Timeout d = (PropagationTimeout (config d), PollingInterval (config d))"

section \<open>Zone resolution\<close>

definition getHostedZoneID ::
  "externals \<Rightarrow> dnsProvider \<Rightarrow> string \<Rightarrow> backend \<Rightarrow> (error + string) \<times> backend" where
  "getHostedZoneID x d fqdn b =
     (let zone = GetOrFile x EnvZoneName in
      if zone \<noteq> [] then (Inr zone, b)
      else
        (let b1 = logCall (FindZone fqdn) b in
         case FindZoneByFqdn x fqdn of
           Inl err \<Rightarrow> (Inl err, b1)
         | Inr authZone \<Rightarrow>
             (case NewZonesClient x (SubscriptionID (config d)) (authorizer d) of
                Some err \<Rightarrow> (Inl err, b1)
              | None \<Rightarrow>
                  (case dc_Get b1 (ResourceGroup (config d)) (UnFqdn authZone) of
                     (Inl err, b2) \<Rightarrow> (Inl err, b2)
                   | (Inr z, b2) \<Rightarrow> (Inr (to_String (ZoneName z)), b2)))))"

section \<open>Present\<close>

text \<open>
  \<open>uniqRecords\<close> is a Go map used as a set: its keys, without duplicates, in the order
  of their first insertion.
\<close>

definition mapInsert :: "string \<Rightarrow> string list \<Rightarrow> string list" where
  "mapInsert k ks = (if k \<in> set ks then ks else ks @ [k])"

text \<open>Lines 62 to 67: the loop over the TXT entries that were read. A nil entry makes
  \<open>txtRecord.Value\<close> a nil dereference.\<close>

fun collect :: "TxtRecord option list \<Rightarrow> string list \<Rightarrow> string list option" where
  "collect [] uniq = Some uniq"
| "collect (None # rest) uniq = None"
| "collect (Some txtRecord # rest) uniq =
     (case Value txtRecord of
        Some s # others \<Rightarrow> collect rest (mapInsert s uniq)
      | None # others \<Rightarrow> collect rest uniq
      | [] \<Rightarrow> collect rest uniq)"

text \<open>Lines 60 to 68.\<close>

definition uniqRecords :: "string \<Rightarrow> RecordSet \<Rightarrow> string list option" where
  "uniqRecords v rset =
     (case Properties rset of
        None \<Rightarrow> Some [v]
      | Some props \<Rightarrow> collect (TxtRecords props) [v])"

text \<open>
  The order in which \<open>range\<close> visits the keys of a map is not specified and changes
  from run to run: it is a parameter, a list of numbers that says where each key goes.
  Every list of numbers gives a permutation of the keys.
\<close>

definition insertAt :: "nat \<Rightarrow> 'a \<Rightarrow> 'a list \<Rightarrow> 'a list" where
  "insertAt n k ks = take (n mod Suc (length ks)) ks @ k # drop (n mod Suc (length ks)) ks"

fun rangeOrder :: "nat list \<Rightarrow> 'a list \<Rightarrow> 'a list" where
  "rangeOrder seed [] = []"
| "rangeOrder [] (k # ks) = k # rangeOrder [] ks"
| "rangeOrder (n # seed) (k # ks) = insertAt n k (rangeOrder seed ks)"

text \<open>
  Lines 70 to 73 take the address of the loop variable: \<open>&txt\<close>. What that address
  is depends on the language version of the module (the \<open>go\<close> line of go.mod, which is
  not part of the sources): before Go 1.22 the variable of a \<open>for ... range\<close> is one
  variable for the whole loop, from Go 1.22 on each iteration has its own. The strings
  live in a store from addresses to values; a TXT entry in memory is the list of the
  addresses of its strings.
\<close>

datatype loopvar = PerLoop | PerIteration

type_synonym addr = nat
type_synonym store = "addr \<rightharpoonup> string"

fun rangeLoop ::
  "loopvar \<Rightarrow> nat \<Rightarrow> string list \<Rightarrow> store \<times> addr list list \<Rightarrow> store \<times> addr list list" where
  "rangeLoop lv i [] st = st"
| "rangeLoop lv i (txt # keys) (h, txtRecords) =
     (let a = (case lv of PerLoop \<Rightarrow> 0 | PerIteration \<Rightarrow> i) in
      rangeLoop lv (Suc i) keys (h(a \<mapsto> txt), txtRecords @ [[a]]))"

text \<open>What the client sends: every pointer is followed when the request is built,
  after the loop.\<close>

definition marshal :: "store \<times> addr list list \<Rightarrow> TxtRecord option list" where
  "marshal st = map (\<lambda>ptrs. Some \<lparr>Value = map (fst st) ptrs\<rparr>) (snd st)"

definition txtRecordsOf :: "loopvar \<Rightarrow> string list \<Rightarrow> TxtRecord option list" where
  "txtRecordsOf lv keys = marshal (rangeLoop lv 0 keys (Map.empty, []))"

text \<open>Lines 59 to 87: merge and write.\<close>

definition upsert ::
  "loopvar \<Rightarrow> nat list \<Rightarrow> dnsProvider \<Rightarrow> string \<Rightarrow> string \<Rightarrow> string \<Rightarrow> RecordSet \<Rightarrow> backend
     \<Rightarrow> outcome \<times> backend" where
  "upsert lv seed d zone subDomain v rset b =
     (case uniqRecords v rset of
        None \<Rightarrow> (Panic, b)
      | Some uniq \<Rightarrow>
          (let txtRecords = txtRecordsOf lv (rangeOrder seed uniq);
               rec = \<lparr>Name = Some subDomain,
                      Properties = Some \<lparr>PropertiesTTL = to_Int64Ptr (TTL (config d)),
                                         TxtRecords = txtRecords\<rparr>\<rparr>
           in
           case rsc_CreateOrUpdate b (ResourceGroup (config d)) zone subDomain rec of
             (Some err, b') \<Rightarrow> (Err (WrapError ''azure: '' err), b')
           | (None, b') \<Rightarrow> (Ok, b')))"

text \<open>Lines 31 to 57, then the merge.\<close>

definition Present ::
  "externals \<Rightarrow> loopvar \<Rightarrow> nat list \<Rightarrow> dnsProvider \<Rightarrow> string \<Rightarrow> string \<Rightarrow> string \<Rightarrow> backend
     \<Rightarrow> outcome \<times> backend" where
  "Present x lv seed d domain token keyAuth b =
     (case GetRecord x domain keyAuth of
        (fqdn, v) \<Rightarrow>
          (case getHostedZoneID x d fqdn b of
             (Inl err, b1) \<Rightarrow> (Err (WrapError ''azure: '' err), b1)
           | (Inr zone, b1) \<Rightarrow>
               (case NewRecordSetsClient x (SubscriptionID (config d)) (authorizer d) of
                  Some err \<Rightarrow> (Err (WrapError ''azure: '' err), b1)
                | None \<Rightarrow>
                    (case ExtractSubDomain x fqdn zone of
                       Inl err \<Rightarrow> (Err (WrapError ''azure: '' err), b1)
                     | Inr subDomain \<Rightarrow>
                         (case rsc_Get b1 (ResourceGroup (config d)) zone subDomain of
                            (Inl err, b2) \<Rightarrow>
                              (case errors_As err of
                                 None \<Rightarrow> (Err (WrapError ''azure: '' err), b2)
                               | Some code \<Rightarrow>
                                   if code \<noteq> StatusNotFound
                                   then (Err (WrapError ''azure: '' err), b2)
                                   else upsert lv seed d zone subDomain v zeroRecordSet b2)
                          | (Inr rset, b2) \<Rightarrow>
                              upsert lv seed d zone subDomain v rset b2)))))"

section \<open>CleanUp\<close>

definition CleanUp ::
  "externals \<Rightarrow> dnsProvider \<Rightarrow> string \<Rightarrow> string \<Rightarrow> string \<Rightarrow> backend \<Rightarrow> outcome \<times> backend" where
  "CleanUp x d domain token keyAuth b =
     (case GetRecord x domain keyAuth of
        (fqdn, v) \<Rightarrow>
          (case getHostedZoneID x d fqdn b of
             (Inl err, b1) \<Rightarrow> (Err (WrapError ''azure: '' err), b1)
           | (Inr zone, b1) \<Rightarrow>
               (case ExtractSubDomain x fqdn zone of
                  Inl err \<Rightarrow> (Err (WrapError ''azure: '' err), b1)
                | Inr subDomain \<Rightarrow>
                    (case NewRecordSetsClient x (SubscriptionID (config d)) (authorizer d) of
                       Some err \<Rightarrow> (Err (WrapError ''azure: '' err), b1)
                     | None \<Rightarrow>
                         (case rsc_Delete b1 (ResourceGroup (config d)) zone subDomain of
                            (Some err, b2) \<Rightarrow> (Err (WrapError ''azure: '' err), b2)
                          | (None, b2) \<Rightarrow> (Ok, b2))))))"

section \<open>Observations on record sets\<close>

text \<open>
  What the statements below observe of a record set: its TXT entries,
  the first string of every entry that has one (what the loop of \<open>Present\<close> looks
  at), every string of every entry (the TXT values of the record set), and the entries
  that are malformed: no string at all, or a nil first string.
\<close>

definition entries :: "RecordSet \<Rightarrow> TxtRecord option list" where
  "entries rset = (case Properties rset of None \<Rightarrow> [] | Some props \<Rightarrow> TxtRecords props)"

definition firstString :: "TxtRecord option \<Rightarrow> string list" where
  "firstString e =
     (case e of
        None \<Rightarrow> []
      | Some r \<Rightarrow> (case Value r of Some s # others \<Rightarrow> [s] | None # others \<Rightarrow> [] | [] \<Rightarrow> []))"

definition firstStrings :: "RecordSet \<Rightarrow> string list" where
  "firstStrings rset = concat (map firstString (entries rset))"

definition allStrings :: "TxtRecord option \<Rightarrow> string list" where
  "allStrings e =
     (case e of
        None \<Rightarrow> []
      | Some r \<Rightarrow> concat (map (\<lambda>s. case s of None \<Rightarrow> [] | Some w \<Rightarrow> [w]) (Value r)))"

definition txtValues :: "RecordSet \<Rightarrow> string list" where
  "txtValues rset = concat (map allStrings (entries rset))"

definition malformed :: "TxtRecord option \<Rightarrow> bool" where
  "malformed e =
     (case e of
        None \<Rightarrow> False
      | Some r \<Rightarrow> (case Value r of Some s # others \<Rightarrow> False | None # others \<Rightarrow> True | [] \<Rightarrow> True))"

text \<open>A record set without its malformed entries.\<close>

definition dropMalformed :: "RecordSet \<Rightarrow> RecordSet" where
  "dropMalformed rset =
     (case Properties rset of
        None \<Rightarrow> rset
      | Some props \<Rightarrow>
          rset\<lparr>Properties := Some (props\<lparr>TxtRecords := filter (\<lambda>e. \<not> malformed e) (TxtRecords props)\<rparr>)\<rparr>)"

text \<open>A TXT entry of one string, and the record set that lines 75 to 81 build around a
  list of entries.\<close>

definition single :: "string \<Rightarrow> TxtRecord option" where
  "single s = Some \<lparr>Value = [Some s]\<rparr>"

definition request :: "dnsProvider \<Rightarrow> string \<Rightarrow> TxtRecord option list \<Rightarrow> RecordSet" where
  "request d subDomain txtRecords =
     \<lparr>Name = Some subDomain,
      Properties = Some \<lparr>PropertiesTTL = Some (TTL (config d)), TxtRecords = txtRecords\<rparr>\<rparr>"

section \<open>A concrete deployment\<close>

text \<open>
  The scenario of the specification: domain \<open>example.com\<close>, zone \<open>example.com\<close> in
  resource group \<open>rg\<close>, record name \<open>_acme-challenge\<close>. The argument of
  \<open>exampleExternals\<close> is the value of \<open>AZURE_ZONE_NAME\<close>. The credential constructor
  answers with a different handle for each cloud, so that the handle tells which cloud
  it was built for.
\<close>

definition exampleExternals :: "string \<Rightarrow> externals" where
  "exampleExternals override =
     \<lparr>GetOrFile = (\<lambda>n. if n = EnvZoneName then override
                       else if n = EnvSubscriptionID then ''sub''
                       else if n = EnvResourceGroup then ''rg''
                       else if n = EnvEnvironment then ''public'' else []),
      GetOrDefaultInt = (\<lambda>n dflt. dflt),
      GetOrDefaultSecond = (\<lambda>n dflt. dflt),
      GetOrDefaultBool = (\<lambda>n dflt. dflt),
      GetRecord = (\<lambda>domain keyAuth. (''_acme-challenge.'' @ domain @ ''.'', keyAuth)),
      FindZoneByFqdn = (\<lambda>fqdn. Inr ''example.com.''),
      ExtractSubDomain = (\<lambda>fqdn zone. Inr ''_acme-challenge''),
      NewZonesClient = (\<lambda>subscription cred. None),
      NewRecordSetsClient = (\<lambda>subscription cred. None),
      NewEnvironmentCredential =
        (\<lambda>opts. Inr (Credential (case Cloud (Options opts) of AzureChina \<Rightarrow> 1 | _ \<Rightarrow> 0)))\<rparr>"

definition exampleConfig :: Config where
  "exampleConfig =
     \<lparr>ClientID = [], ClientSecret = [], TenantID = [],
      SubscriptionID = ''sub'', ResourceGroup = ''rg'', PrivateZone = False,
      MetadataEndpoint = [], CloudConfig = AzurePublic,
      PropagationTimeout = 120000000000, PollingInterval = 2000000000,
      TTL = 60, HTTPClient = Some DefaultClient\<rparr>"

definition exampleProvider :: dnsProvider where
  "exampleProvider = \<lparr>config = exampleConfig, authorizer = Credential 1\<rparr>"

definition exampleBackend ::
  "(string \<times> string \<times> string \<rightharpoonup> RecordSet) \<Rightarrow> (call \<Rightarrow> error option) \<Rightarrow> backend" where
  "exampleBackend rs f =
     \<lparr>zones = [(''rg'', ''example.com'') \<mapsto> \<lparr>ZoneName = Some ''example.com''\<rparr>],
      recordSets = rs, fault = f, calls = []\<rparr>"

text \<open>A service that answers every delete of a record set with 404.\<close>

definition deleteNotFound :: "call \<Rightarrow> error option" where
  "deleteNotFound c =
     (case c of RecordSetsDelete rg zone name \<Rightarrow> Some (ResponseError 404 ''NotFound'')
      | _ \<Rightarrow> None)"

text \<open>An environment in which \<open>azidentity.NewEnvironmentCredential\<close> fails.\<close>

definition credentialFails :: externals where
  "credentialFails = (exampleExternals [])
     \<lparr>NewEnvironmentCredential :=
        (\<lambda>opts. Inl (ErrorString ''missing environment variable AZURE_TENANT_ID''))\<rparr>"

text \<open>The record name of the scenario, a record set stored under it, and a service
  that refuses to read record sets.\<close>

definition exampleKey :: "string \<times> string \<times> string" where
  "exampleKey = (''rg'', ''example.com'', ''_acme-challenge'')"

definition existingRecordSet :: "string option list list \<Rightarrow> RecordSet" where
  "existingRecordSet vs =
        \<lparr>Name = Some ''_acme-challenge'',
         Properties = Some \<lparr>PropertiesTTL = Some 60,
                            TxtRecords = map (\<lambda>ss. Some \<lparr>Value = ss\<rparr>) vs\<rparr>\<rparr>"

definition readForbidden :: "call \<Rightarrow> error option" where
  "readForbidden c =
     (case c of RecordSetsGet rg zone name \<Rightarrow> Some (ResponseError 403 ''AuthorizationFailed'')
      | _ \<Rightarrow> None)"

section \<open>Errors and their prefix\<close>

lemma Error_WrapError_prefix: "prefix p (Error (WrapError p e))"
  by simp

section \<open>Zone resolution\<close>

lemma getHostedZoneID_preserves:
  "getHostedZoneID x d fqdn b = (r, b1) \<Longrightarrow>
     fault b1 = fault b \<and> recordSets b1 = recordSets b \<and> zones b1 = zones b"
  by (auto simp: getHostedZoneID_def dc_Get_def logCall_def Let_def
      split: if_splits sum.splits option.splits prod.splits)

lemma UnFqdn_dot: "UnFqdn (z @ ''.'') = z"
  by (simp add: UnFqdn_def)

text \<open>
  C5. When \<open>AZURE_ZONE_NAME\<close> is set, \<open>getHostedZoneID\<close> returns its value and leaves
  the world as it was: the log of calls has neither a zone discovery nor a get-zone
  call more than before.
\<close>

theorem getHostedZoneID_override:
  "GetOrFile x EnvZoneName \<noteq> [] \<Longrightarrow>
     getHostedZoneID x d fqdn b = (Inr (GetOrFile x EnvZoneName), b) \<and>
     calls (snd (getHostedZoneID x d fqdn b)) = calls b"
  by (simp add: getHostedZoneID_def)

text \<open>
  At the override \<open>custom.zone.\<close> of the specification's scenario no call is logged;
  without the override the same request logs the discovery and the get-zone call.
\<close>

theorem getHostedZoneID_override_witness:
  "GetOrFile (exampleExternals ''custom.zone.'') EnvZoneName \<noteq> [] \<and>
   getHostedZoneID (exampleExternals ''custom.zone.'') exampleProvider
       ''_acme-challenge.example.com.'' (exampleBackend Map.empty (\<lambda>c. None))
     = (Inr ''custom.zone.'', exampleBackend Map.empty (\<lambda>c. None)) \<and>
   calls (snd (getHostedZoneID (exampleExternals ''custom.zone.'') exampleProvider
       ''_acme-challenge.example.com.'' (exampleBackend Map.empty (\<lambda>c. None)))) = [] \<and>
   calls (snd (getHostedZoneID (exampleExternals []) exampleProvider
       ''_acme-challenge.example.com.'' (exampleBackend Map.empty (\<lambda>c. None))))
     = [FindZone ''_acme-challenge.example.com.'', ZonesGet ''rg'' ''example.com'']"
  using getHostedZoneID_override [of "exampleExternals ''custom.zone.''" exampleProvider
       "''_acme-challenge.example.com.''" "exampleBackend Map.empty (\<lambda>c. None)"]
  by (simp add: exampleExternals_def getHostedZoneID_def exampleBackend_def exampleProvider_def
      exampleConfig_def dc_Get_def logCall_def UnFqdn_def EnvZoneName_def)



section \<open>CleanUp\<close>

lemma CleanUp_error_wrapped:
  "fst (CleanUp x d domain token keyAuth b) = Err e \<Longrightarrow> \<exists>e'. e = WrapError ''azure: '' e'"
  by (auto simp: CleanUp_def Let_def
      split: prod.splits sum.splits option.splits if_splits)

lemma CleanUp_never_panics: "fst (CleanUp x d domain token keyAuth b) \<noteq> Panic"
  by (auto simp: CleanUp_def Let_def
      split: prod.splits sum.splits option.splits if_splits)

text \<open>
  C1, as the code has it. Once the zone, the record name and the client are there,
  \<open>CleanUp\<close> succeeds when the delete reports no error, and returns every error the
  delete reports, a not-found report like any other, behind the prefix \<open>azure: \<close>.
\<close>

theorem CleanUp_delete_result:
  assumes "GetRecord x domain keyAuth = (fqdn, v)"
    and "getHostedZoneID x d fqdn b = (Inr zone, b1)"
    and "ExtractSubDomain x fqdn zone = Inr subDomain"
    and "NewRecordSetsClient x (SubscriptionID (config d)) (authorizer d) = None"
  shows "fst (CleanUp x d domain token keyAuth b) =
           (case fault b (RecordSetsDelete (ResourceGroup (config d)) zone subDomain) of
              None \<Rightarrow> Ok
            | Some err \<Rightarrow> Err (WrapError ''azure: '' err))"
proof -
  have f: "fault b1 = fault b"
    using getHostedZoneID_preserves [OF assms(2)] by simp
  show ?thesis
    using assms f by (simp add: CleanUp_def rsc_Delete_def logCall_def Let_def split: option.splits)
qed

text \<open>A delete that reports nothing: \<open>CleanUp\<close> of a name with no record set succeeds.\<close>

theorem CleanUp_delete_result_witness:
  "recordSets (exampleBackend Map.empty (\<lambda>c. None)) (''rg'', ''example.com'', ''_acme-challenge'')
     = None \<and>
   fst (CleanUp (exampleExternals []) exampleProvider ''example.com'' ''token'' ''keyAuth''
          (exampleBackend Map.empty (\<lambda>c. None))) = Ok"
  using CleanUp_delete_result [of "exampleExternals []" "''example.com''" "''keyAuth''"
      "''_acme-challenge.example.com.''" "''keyAuth''" exampleProvider
      "exampleBackend Map.empty (\<lambda>c. None)" "''example.com''"
      "snd (getHostedZoneID (exampleExternals []) exampleProvider ''_acme-challenge.example.com.''
          (exampleBackend Map.empty (\<lambda>c. None)))" "''_acme-challenge''" "''token''"]
  by (simp add: exampleExternals_def getHostedZoneID_def exampleBackend_def
      exampleProvider_def exampleConfig_def dc_Get_def logCall_def UnFqdn_def
      EnvZoneName_def to_String_def)

text \<open>
  C1, as it is written, fails: the delete reports a response error with status 404,
  and \<open>CleanUp\<close> returns it as an error.
\<close>

theorem CleanUp_not_found_counterexample:
  "errors_As (ResponseError 404 ''NotFound'') = Some StatusNotFound \<and>
   fault (exampleBackend Map.empty deleteNotFound)
      (RecordSetsDelete ''rg'' ''example.com'' ''_acme-challenge'')
     = Some (ResponseError 404 ''NotFound'') \<and>
   fst (CleanUp (exampleExternals []) exampleProvider ''example.com'' ''token'' ''keyAuth''
          (exampleBackend Map.empty deleteNotFound))
     = Err (WrapError ''azure: '' (ResponseError 404 ''NotFound''))"
  by (simp add: CleanUp_def exampleExternals_def getHostedZoneID_def exampleBackend_def
      exampleProvider_def exampleConfig_def dc_Get_def rsc_Delete_def logCall_def UnFqdn_def
      EnvZoneName_def deleteNotFound_def to_String_def StatusNotFound_def)

section \<open>Construction\<close>

lemma NewDNSProviderConfig_authorizer:
  "NewDNSProviderConfig x (Some cfg) = Inr p \<Longrightarrow>
     NewEnvironmentCredential x \<lparr>Options = \<lparr>Cloud = AzureChina\<rparr>\<rparr> = Inr (authorizer (provider p))"
  by (auto simp: NewDNSProviderConfig_def Let_def split: if_splits sum.splits)

lemma NewDNSProviderConfig_CloudConfig:
  "NewDNSProviderConfig x (Some cfg) = Inr p \<Longrightarrow>
     \<exists>p'. NewDNSProviderConfig x (Some (cfg\<lparr>CloudConfig := c\<rparr>)) = Inr p' \<and>
          authorizer (provider p') = authorizer (provider p)"
  by (auto simp: NewDNSProviderConfig_def Let_def split: if_splits sum.splits)

lemma NewDNSProvider_authorizer:
  "NewDNSProvider x = Inr q \<Longrightarrow>
     NewEnvironmentCredential x \<lparr>Options = \<lparr>Cloud = AzureChina\<rparr>\<rparr> = Inr (authorizer (provider q))"
  unfolding NewDNSProvider_def Let_def
  by (auto simp: NewDNSProviderConfig_authorizer split: sum.splits)

text \<open>
  C10. The credential of every provider that \<open>NewDNSProviderConfig\<close> returns is the
  one \<open>NewEnvironmentCredential\<close> builds for the options with cloud \<open>AzureChina\<close>;
  changing \<open>CloudConfig\<close> in the configuration changes nothing of it; the same holds
  for the provider that \<open>NewDNSProvider\<close> builds from the environment.
\<close>

theorem credential_cloud_AzureChina:
  "(NewDNSProviderConfig x (Some cfg) = Inr p \<longrightarrow>
      NewEnvironmentCredential x \<lparr>Options = \<lparr>Cloud = AzureChina\<rparr>\<rparr> = Inr (authorizer (provider p)) \<and>
      (\<forall>c. \<exists>p'. NewDNSProviderConfig x (Some (cfg\<lparr>CloudConfig := c\<rparr>)) = Inr p' \<and>
              authorizer (provider p') = authorizer (provider p))) \<and>
   (NewDNSProvider x = Inr q \<longrightarrow>
      NewEnvironmentCredential x \<lparr>Options = \<lparr>Cloud = AzureChina\<rparr>\<rparr> = Inr (authorizer (provider q)))"
  using NewDNSProviderConfig_authorizer NewDNSProviderConfig_CloudConfig NewDNSProvider_authorizer
  by blast

text \<open>With \<open>AZURE_ENVIRONMENT=public\<close> and \<open>CloudConfig = AzurePublic\<close> the credential
  is the one of the China cloud (handle 1), not the one of the public cloud (handle 0).\<close>

theorem credential_cloud_AzureChina_witness:
  "CloudConfig exampleConfig = AzurePublic \<and>
   NewDNSProviderConfig (exampleExternals []) (Some exampleConfig) = Inr \<lparr>provider = exampleProvider\<rparr> \<and>
   NewDNSProvider (exampleExternals []) = Inr \<lparr>provider = exampleProvider\<rparr> \<and>
   NewEnvironmentCredential (exampleExternals []) \<lparr>Options = \<lparr>Cloud = AzureChina\<rparr>\<rparr> = Inr (Credential 1) \<and>
   NewEnvironmentCredential (exampleExternals []) \<lparr>Options = \<lparr>Cloud = AzurePublic\<rparr>\<rparr> = Inr (Credential 0) \<and>
   authorizer exampleProvider = Credential 1"
proof -
  have c: "NewDNSProviderConfig (exampleExternals []) (Some exampleConfig) = Inr \<lparr>provider = exampleProvider\<rparr>"
    by (simp add: NewDNSProviderConfig_def exampleExternals_def exampleConfig_def exampleProvider_def)
  have p: "NewDNSProvider (exampleExternals []) = Inr \<lparr>provider = exampleProvider\<rparr>"
    by (simp add: NewDNSProviderConfig_def NewDNSProvider_def NewDefaultConfig_def
      exampleExternals_def exampleConfig_def exampleProvider_def Let_def
      EnvEnvironment_def EnvSubscriptionID_def EnvResourceGroup_def EnvZoneName_def
      EnvClientSecret_def EnvClientID_def EnvTenantID_def EnvPrivateZone_def EnvTTL_def
      EnvPropagationTimeout_def EnvPollingInterval_def)
  have o: "NewEnvironmentCredential (exampleExternals []) \<lparr>Options = \<lparr>Cloud = AzurePublic\<rparr>\<rparr> = Inr (Credential 0)"
    by (simp add: exampleExternals_def)
  from credential_cloud_AzureChina [of "exampleExternals []" exampleConfig
      "\<lparr>provider = exampleProvider\<rparr>" "\<lparr>provider = exampleProvider\<rparr>"] c p o
  show ?thesis by (simp add: exampleConfig_def exampleProvider_def)
qed

lemma NewDNSProviderConfig_checks_prefix:
  "cfg = None \<or> SubscriptionID (the cfg) = [] \<or> ResourceGroup (the cfg) = [] \<Longrightarrow>
     \<exists>e. NewDNSProviderConfig x cfg = Inl e \<and> prefix ''azure: '' (Error e)"
  by (cases cfg) (auto simp: NewDNSProviderConfig_def Let_def)

text \<open>
  C7 at the input where it fails: a configuration with subscription and resource
  group, in an environment where the credential cannot be built. The error that
  \<open>NewDNSProviderConfig\<close> returns does not begin with \<open>azure: \<close>.
\<close>

theorem NewDNSProviderConfig_credential_error:
  "NewDNSProviderConfig credentialFails (Some exampleConfig)
     = Inl (WrapError ''azidentity.NewEnvironmentCredential failed: ''
              (ErrorString ''missing environment variable AZURE_TENANT_ID'')) \<and>
   Error (WrapError ''azidentity.NewEnvironmentCredential failed: ''
              (ErrorString ''missing environment variable AZURE_TENANT_ID''))
     = ''azidentity.NewEnvironmentCredential failed: missing environment variable AZURE_TENANT_ID'' \<and>
   \<not> prefix ''azure: '' (Error (WrapError ''azidentity.NewEnvironmentCredential failed: ''
              (ErrorString ''missing environment variable AZURE_TENANT_ID'')))"
  by (simp add: NewDNSProviderConfig_def credentialFails_def exampleExternals_def
      exampleConfig_def)


section \<open>The order of \<open>range\<close> over a map\<close>

lemma set_insertAt: "set (insertAt n k ks) = insert k (set ks)"
proof -
  have "set (take (n mod Suc (length ks)) ks) \<union> set (drop (n mod Suc (length ks)) ks) = set ks"
    by (metis append_take_drop_id set_append)
  then show ?thesis
    by (auto simp: insertAt_def)
qed

lemma length_insertAt: "length (insertAt n k ks) = Suc (length ks)"
  by (simp add: insertAt_def)

lemma distinct_insertAt:
  assumes "distinct ks" and "k \<notin> set ks"
  shows "distinct (insertAt n k ks)"
proof -
  let ?m = "n mod Suc (length ks)"
  have "distinct (take ?m ks @ drop ?m ks)" using assms(1) by simp
  then have parts: "distinct (take ?m ks)" "distinct (drop ?m ks)"
      "set (take ?m ks) \<inter> set (drop ?m ks) = {}"
    unfolding distinct_append by blast+
  have "k \<notin> set (take ?m ks)" "k \<notin> set (drop ?m ks)"
    using assms(2) by (auto dest: in_set_takeD in_set_dropD)
  with parts show ?thesis
    unfolding insertAt_def by auto
qed

lemma set_rangeOrder: "set (rangeOrder seed ks) = set ks"
  by (induction seed ks rule: rangeOrder.induct) (auto simp: set_insertAt)

lemma length_rangeOrder: "length (rangeOrder seed ks) = length ks"
  by (induction seed ks rule: rangeOrder.induct) (auto simp: length_insertAt)

lemma distinct_rangeOrder: "distinct ks \<Longrightarrow> distinct (rangeOrder seed ks)"
  by (induction seed ks rule: rangeOrder.induct) (auto simp: distinct_insertAt set_rangeOrder)

lemma rangeOrder_single: "rangeOrder seed [k] = [k]"
  by (cases seed) (simp_all add: insertAt_def)

section \<open>The keys of \<open>uniqRecords\<close>\<close>

lemma set_mapInsert: "set (mapInsert k ks) = insert k (set ks)"
  by (auto simp: mapInsert_def)

lemma distinct_mapInsert: "distinct ks \<Longrightarrow> distinct (mapInsert k ks)"
  by (auto simp: mapInsert_def)

lemma collect_set:
  "collect es uniq = Some uniq' \<Longrightarrow> set uniq' = set uniq \<union> set (concat (map firstString es))"
  by (induction es uniq rule: collect.induct)
    (auto simp: firstString_def set_mapInsert split: list.splits option.splits)

lemma collect_distinct:
  "collect es uniq = Some uniq' \<Longrightarrow> distinct uniq \<Longrightarrow> distinct uniq'"
  by (induction es uniq rule: collect.induct)
    (auto simp: distinct_mapInsert split: list.splits option.splits)

lemma collect_no_nil:
  "list_all (\<lambda>e. e \<noteq> None) es \<Longrightarrow> \<exists>uniq'. collect es uniq = Some uniq'"
  by (induction es uniq rule: collect.induct) (auto split: list.splits option.splits)

lemma malformed_simps:
  "malformed None = False"
  "Value r = [] \<Longrightarrow> malformed (Some r)"
  "Value r = None # ss \<Longrightarrow> malformed (Some r)"
  "Value r = Some s # ss \<Longrightarrow> \<not> malformed (Some r)"
  by (simp_all add: malformed_def)

lemma collect_malformed:
  "collect (filter (\<lambda>e. \<not> malformed e) es) uniq = collect es uniq"
proof (induction es uniq rule: collect.induct)
  case (1 uniq)
  show ?case by simp
next
  case (2 rest uniq)
  show ?case by (simp add: malformed_simps)
next
  case (3 txtRecord rest uniq)
  show ?case
  proof (cases "Value txtRecord")
    case Nil
    then show ?thesis using 3 by (simp add: malformed_simps)
  next
    case (Cons s ss)
    then show ?thesis using 3 by (cases s) (simp_all add: malformed_simps)
  qed
qed

lemma uniqRecords_set:
  "set uniq = insert v (set (firstStrings rset))" if "uniqRecords v rset = Some uniq"
proof (cases "Properties rset")
  case None
  then show ?thesis
    using that by (auto simp: uniqRecords_def firstStrings_def entries_def)
next
  case (Some props)
  then have "collect (TxtRecords props) [v] = Some uniq"
    using that by (simp add: uniqRecords_def)
  from collect_set [OF this] Some show ?thesis
    by (simp add: firstStrings_def entries_def)
qed

lemma uniqRecords_distinct: "uniqRecords v rset = Some uniq \<Longrightarrow> distinct uniq"
  by (auto simp: uniqRecords_def dest: collect_distinct split: option.splits)

lemma uniqRecords_zero: "uniqRecords v zeroRecordSet = Some [v]"
  by (simp add: uniqRecords_def zeroRecordSet_def)

lemma uniqRecords_no_nil:
  "list_all (\<lambda>e. e \<noteq> None) (entries rset) \<Longrightarrow> \<exists>uniq. uniqRecords v rset = Some uniq"
  by (auto simp: uniqRecords_def entries_def intro: collect_no_nil split: option.splits)

lemma uniqRecords_dropMalformed: "uniqRecords v (dropMalformed rset) = uniqRecords v rset"
  by (simp add: uniqRecords_def dropMalformed_def collect_malformed split: option.splits)

lemma entries_dropMalformed:
  "entries (dropMalformed rset) = filter (\<lambda>e. \<not> malformed e) (entries rset)"
  by (simp add: entries_def dropMalformed_def split: option.splits)

lemma uniqRecords_all_malformed:
  "list_all malformed (entries rset) \<Longrightarrow> uniqRecords v rset = Some [v]"
proof -
  assume "list_all malformed (entries rset)"
  then have "entries (dropMalformed rset) = []"
    by (simp add: entries_dropMalformed list_all_iff)
  then have "uniqRecords v (dropMalformed rset) = Some [v]"
    by (auto simp: uniqRecords_def entries_def split: option.splits)
  then show ?thesis
    by (simp add: uniqRecords_dropMalformed)
qed

section \<open>The entries that are sent\<close>

text \<open>
  With a variable for each iteration every key gets an entry of its own. With one
  variable for the loop every entry points to that variable, which holds the key of the
  last iteration when the request is built: all entries carry the last key.
\<close>

lemma marshal_append:
  "marshal (h, rs @ rs') = marshal (h, rs) @ marshal (h, rs')"
  by (simp add: marshal_def)

lemma marshal_fresh:
  "list_all (list_all (\<lambda>a. a < i)) rs \<Longrightarrow> marshal (h(i \<mapsto> k), rs) = marshal (h, rs)"
  by (induction rs) (auto simp: marshal_def list_all_iff)

lemma rangeLoop_PerIteration:
  "list_all (list_all (\<lambda>a. a < i)) rs \<Longrightarrow>
     marshal (rangeLoop PerIteration i ks (h, rs)) = marshal (h, rs) @ map single ks"
proof (induction ks arbitrary: i h rs)
  case Nil
  then show ?case by simp
next
  case (Cons k ks)
  have inv: "list_all (list_all (\<lambda>a. a < Suc i)) (rs @ [[i]])"
    using Cons.prems by (auto simp: list_all_iff less_Suc_eq)
  have last_entry: "marshal (h(i \<mapsto> k), [[i]]) = [single k]"
    by (simp add: marshal_def single_def)
  have "marshal (rangeLoop PerIteration i (k # ks) (h, rs))
          = marshal (rangeLoop PerIteration (Suc i) ks (h(i \<mapsto> k), rs @ [[i]]))"
    by simp
  also have "\<dots> = marshal (h(i \<mapsto> k), rs @ [[i]]) @ map single ks"
    by (rule Cons.IH [OF inv])
  also have "\<dots> = (marshal (h, rs) @ [single k]) @ map single ks"
    unfolding marshal_append marshal_fresh [OF Cons.prems] last_entry ..
  finally show ?case by simp
qed

lemma marshal_shared:
  "list_all (\<lambda>ptrs. ptrs = [0]) rs \<Longrightarrow>
     marshal (h(0 \<mapsto> k), rs) = replicate (length rs) (single k)"
  by (induction rs) (auto simp: marshal_def single_def)

lemma rangeLoop_PerLoop:
  "list_all (\<lambda>ptrs. ptrs = [0]) rs \<Longrightarrow>
     marshal (rangeLoop PerLoop i (ks @ [k]) (h, rs))
       = replicate (length rs + Suc (length ks)) (single k)"
proof (induction ks arbitrary: i h rs)
  case Nil
  have inv: "list_all (\<lambda>ptrs. ptrs = [0]) (rs @ [[0]])" using Nil by simp
  have "marshal (rangeLoop PerLoop i ([] @ [k]) (h, rs)) = marshal (h(0 \<mapsto> k), rs @ [[0]])"
    by simp
  also have "\<dots> = replicate (length (rs @ [[0]])) (single k)"
    by (rule marshal_shared [OF inv])
  finally show ?case by simp
next
  case (Cons k' ks)
  have inv: "list_all (\<lambda>ptrs. ptrs = [0]) (rs @ [[0]])" using Cons.prems by simp
  have "marshal (rangeLoop PerLoop i ((k' # ks) @ [k]) (h, rs))
          = marshal (rangeLoop PerLoop (Suc i) (ks @ [k]) (h(0 \<mapsto> k'), rs @ [[0]]))"
    by simp
  also have "\<dots> = replicate (length (rs @ [[0]]) + Suc (length ks)) (single k)"
    by (rule Cons.IH [OF inv])
  finally show ?case by simp
qed

lemma txtRecordsOf_PerIteration: "txtRecordsOf PerIteration ks = map single ks"
  using rangeLoop_PerIteration [of 0 "[]" ks Map.empty]
  by (simp add: txtRecordsOf_def marshal_def)

lemma txtRecordsOf_PerLoop:
  "txtRecordsOf PerLoop ks = replicate (length ks) (single (last ks))"
proof (cases ks rule: rev_cases)
  case Nil
  then show ?thesis by (simp add: txtRecordsOf_def marshal_def)
next
  case (snoc ks' k)
  then show ?thesis
    using rangeLoop_PerLoop [of "[]" 0 ks' k Map.empty] by (simp add: txtRecordsOf_def)
qed

lemma txtRecordsOf_subset: "set (txtRecordsOf lv ks) \<subseteq> single ` set ks"
proof (cases lv)
  case PerLoop
  then show ?thesis
    by (cases "ks = []") (auto simp: txtRecordsOf_PerLoop)
next
  case PerIteration
  then show ?thesis by (simp add: txtRecordsOf_PerIteration)
qed

lemma txtRecordsOf_single: "txtRecordsOf lv [k] = [single k]"
  by (cases lv) (simp_all add: txtRecordsOf_PerLoop txtRecordsOf_PerIteration)

lemma allStrings_single: "allStrings (single s) = [s]"
  by (simp add: allStrings_def single_def)

lemma txtValues_request: "txtValues (request d subDomain es) = concat (map allStrings es)"
  by (simp add: txtValues_def entries_def request_def)

lemma concat_allStrings_single: "concat (map allStrings (map single ks)) = ks"
  by (induction ks) (simp_all add: allStrings_single del: map_map)

lemma concat_allStrings_replicate:
  "concat (map allStrings (replicate n (single k))) = replicate n k"
  by (induction n) (simp_all add: allStrings_single)

lemma txtValues_request_subset:
  "set (txtValues (request d subDomain (txtRecordsOf lv ks))) \<subseteq> set ks"
proof
  fix s
  assume "s \<in> set (txtValues (request d subDomain (txtRecordsOf lv ks)))"
  then obtain e where e: "e \<in> set (txtRecordsOf lv ks)" and s: "s \<in> set (allStrings e)"
    by (auto simp: txtValues_request)
  from e txtRecordsOf_subset [of lv ks] obtain k where "k \<in> set ks" and "e = single k"
    by auto
  with s show "s \<in> set ks"
    by (simp add: allStrings_single)
qed

lemma txtValues_request_PerIteration:
  "txtValues (request d subDomain (txtRecordsOf PerIteration ks)) = ks"
  by (simp only: txtValues_request txtRecordsOf_PerIteration concat_allStrings_single)

lemma txtValues_request_PerLoop:
  "txtValues (request d subDomain (txtRecordsOf PerLoop ks)) = replicate (length ks) (last ks)"
  by (simp only: txtValues_request txtRecordsOf_PerLoop concat_allStrings_replicate)

section \<open>Present\<close>

lemma upsert_dropMalformed:
  "upsert lv seed d zone subDomain v (dropMalformed rset) b = upsert lv seed d zone subDomain v rset b"
  by (simp add: upsert_def uniqRecords_dropMalformed)

lemma upsert_request:
  "uniqRecords v rset = Some uniq \<Longrightarrow>
     upsert lv seed d zone subDomain v rset b =
       (case rsc_CreateOrUpdate b (ResourceGroup (config d)) zone subDomain
               (request d subDomain (txtRecordsOf lv (rangeOrder seed uniq))) of
          (Some err, b') \<Rightarrow> (Err (WrapError ''azure: '' err), b')
        | (None, b') \<Rightarrow> (Ok, b'))"
  by (simp add: upsert_def request_def to_Int64Ptr_def)

lemma upsert_calls:
  "uniqRecords v rset = Some uniq \<Longrightarrow>
     calls (snd (upsert lv seed d zone subDomain v rset b)) =
       calls b @ [RecordSetsCreateOrUpdate (ResourceGroup (config d)) zone subDomain
                    (request d subDomain (txtRecordsOf lv (rangeOrder seed uniq)))]"
  by (simp add: upsert_request rsc_CreateOrUpdate_def logCall_def Let_def split: option.splits)

lemma upsert_not_Panic:
  "uniqRecords v rset = Some uniq \<Longrightarrow> fst (upsert lv seed d zone subDomain v rset b) \<noteq> Panic"
  by (simp add: upsert_request rsc_CreateOrUpdate_def Let_def split: option.splits)

lemma Present_after_read:
  assumes "GetRecord x domain keyAuth = (fqdn, v)"
    and "getHostedZoneID x d fqdn b = (Inr zone, b1)"
    and "NewRecordSetsClient x (SubscriptionID (config d)) (authorizer d) = None"
    and "ExtractSubDomain x fqdn zone = Inr subDomain"
    and "rsc_Get b1 (ResourceGroup (config d)) zone subDomain = (r, b2)"
  shows "Present x lv seed d domain token keyAuth b =
           (case r of
              Inl err \<Rightarrow>
                (case errors_As err of
                   None \<Rightarrow> (Err (WrapError ''azure: '' err), b2)
                 | Some code \<Rightarrow>
                     if code \<noteq> StatusNotFound then (Err (WrapError ''azure: '' err), b2)
                     else upsert lv seed d zone subDomain v zeroRecordSet b2)
            | Inr rset \<Rightarrow> upsert lv seed d zone subDomain v rset b2)"
  using assms by (simp add: Present_def split: sum.splits)

lemma rsc_Get_effect:
  "rsc_Get b1 rg zone subDomain = (r, b2) \<Longrightarrow>
     calls b2 = calls b1 @ [RecordSetsGet rg zone subDomain] \<and> recordSets b2 = recordSets b1 \<and>
     fault b2 = fault b1 \<and> zones b2 = zones b1"
  by (auto simp: rsc_Get_def logCall_def Let_def split: option.splits)

lemma Present_Ok:
  assumes "GetRecord x domain keyAuth = (fqdn, v)"
    and "getHostedZoneID x d fqdn b = (Inr zone, b1)"
    and "NewRecordSetsClient x (SubscriptionID (config d)) (authorizer d) = None"
    and "ExtractSubDomain x fqdn zone = Inr subDomain"
    and "fault b (RecordSetsGet (ResourceGroup (config d)) zone subDomain) = None"
    and "uniqRecords v (case recordSets b (ResourceGroup (config d), zone, subDomain) of
                          None \<Rightarrow> zeroRecordSet | Some rs \<Rightarrow> rs) = Some uniq"
    and "fault b (RecordSetsCreateOrUpdate (ResourceGroup (config d)) zone subDomain
                    (request d subDomain (txtRecordsOf lv (rangeOrder seed uniq)))) = None"
  shows "Present x lv seed d domain token keyAuth b =
           (Ok, b1\<lparr>calls := calls b1 @
                      [RecordSetsGet (ResourceGroup (config d)) zone subDomain,
                       RecordSetsCreateOrUpdate (ResourceGroup (config d)) zone subDomain
                         (request d subDomain (txtRecordsOf lv (rangeOrder seed uniq)))],
                    recordSets := (recordSets b)((ResourceGroup (config d), zone, subDomain) \<mapsto>
                         request d subDomain (txtRecordsOf lv (rangeOrder seed uniq)))\<rparr>)"
proof -
  let ?rg = "ResourceGroup (config d)"
  let ?rec = "request d subDomain (txtRecordsOf lv (rangeOrder seed uniq))"
  let ?b2 = "logCall (RecordSetsGet ?rg zone subDomain) b1"
  have same: "fault b1 = fault b" "recordSets b1 = recordSets b"
    using getHostedZoneID_preserves [OF assms(2)] by simp_all
  have w: "rsc_CreateOrUpdate ?b2 ?rg zone subDomain ?rec =
             (None, b1\<lparr>calls := calls b1 @ [RecordSetsGet ?rg zone subDomain,
                          RecordSetsCreateOrUpdate ?rg zone subDomain ?rec],
                       recordSets := (recordSets b)((?rg, zone, subDomain) \<mapsto> ?rec)\<rparr>)"
    using assms(7) same by (simp add: rsc_CreateOrUpdate_def logCall_def Let_def)
  show ?thesis
  proof (cases "recordSets b (?rg, zone, subDomain)")
    case None
    then have g: "rsc_Get b1 ?rg zone subDomain = (Inl (ResponseError StatusNotFound ''NotFound''), ?b2)"
      using assms(5) same by (simp add: rsc_Get_def Let_def)
    have u: "uniqRecords v zeroRecordSet = Some uniq"
      using assms(6) None by simp
    have "Present x lv seed d domain token keyAuth b = upsert lv seed d zone subDomain v zeroRecordSet ?b2"
      using Present_after_read [OF assms(1-4) g, of lv seed token] by simp
    then show ?thesis
      by (simp add: upsert_request [OF u] w)
  next
    case (Some rs)
    then have g: "rsc_Get b1 ?rg zone subDomain = (Inr rs, ?b2)"
      using assms(5) same by (simp add: rsc_Get_def Let_def)
    have u: "uniqRecords v rs = Some uniq"
      using assms(6) Some by simp
    have "Present x lv seed d domain token keyAuth b = upsert lv seed d zone subDomain v rs ?b2"
      using Present_after_read [OF assms(1-4) g, of lv seed token] by simp
    then show ?thesis
      by (simp add: upsert_request [OF u] w)
  qed
qed

lemma Present_error_wrapped:
  "fst (Present x lv seed d domain token keyAuth b) = Err e \<Longrightarrow> \<exists>e'. e = WrapError ''azure: '' e'"
  by (auto simp: Present_def upsert_def Let_def
      split: prod.splits sum.splits option.splits if_splits)

section \<open>Additivity and idempotence, by the semantics of the loop variable\<close>

text \<open>
  With a variable for each iteration a successful \<open>Present\<close> stores the union of the
  new value and the first strings that were there, and a second \<open>Present\<close> of the same
  value changes nothing of the value set. With one variable for the loop the stored
  entries all carry one value, the key of the last iteration, so the union is never
  stored once there is a value other than the new one.
\<close>

lemma getHostedZoneID_result:
  "fault b' = fault b \<Longrightarrow> zones b' = zones b \<Longrightarrow>
     fst (getHostedZoneID x d fqdn b') = fst (getHostedZoneID x d fqdn b)"
  by (simp add: getHostedZoneID_def dc_Get_def logCall_def Let_def
      split: sum.splits option.splits)

lemma firstStrings_request_single: "firstStrings (request d subDomain (map single ks)) = ks"
  by (induction ks) (simp_all add: firstStrings_def entries_def request_def single_def firstString_def)

lemma entries_request_single:
  "list_all (\<lambda>e. e \<noteq> None) (entries (request d subDomain (map single ks)))"
  by (simp add: entries_def request_def single_def list_all_iff)

lemma Present_PerIteration_additive:
  assumes "GetRecord x domain keyAuth = (fqdn, v)"
    and "getHostedZoneID x d fqdn b = (Inr zone, b1)"
    and "NewRecordSetsClient x (SubscriptionID (config d)) (authorizer d) = None"
    and "ExtractSubDomain x fqdn zone = Inr subDomain"
    and "fault b (RecordSetsGet (ResourceGroup (config d)) zone subDomain) = None"
    and "uniqRecords v (case recordSets b (ResourceGroup (config d), zone, subDomain) of
                          None \<Rightarrow> zeroRecordSet | Some rs \<Rightarrow> rs) = Some uniq"
    and "fault b (RecordSetsCreateOrUpdate (ResourceGroup (config d)) zone subDomain
                    (request d subDomain (txtRecordsOf PerIteration (rangeOrder seed uniq)))) = None"
  shows "map_option (\<lambda>rs. set (txtValues rs))
           (recordSets (snd (Present x PerIteration seed d domain token keyAuth b))
              (ResourceGroup (config d), zone, subDomain))
         = Some (insert v (set (firstStrings
              (case recordSets b (ResourceGroup (config d), zone, subDomain) of
                 None \<Rightarrow> zeroRecordSet | Some rs \<Rightarrow> rs))))"
  by (simp add: Present_Ok [OF assms] txtValues_request_PerIteration set_rangeOrder
      uniqRecords_set [OF assms(6)])

lemma Present_PerIteration_idempotent:
  assumes "GetRecord x domain keyAuth = (fqdn, v)"
    and "getHostedZoneID x d fqdn b = (Inr zone, b1)"
    and "NewRecordSetsClient x (SubscriptionID (config d)) (authorizer d) = None"
    and "ExtractSubDomain x fqdn zone = Inr subDomain"
    and "fault b (RecordSetsGet (ResourceGroup (config d)) zone subDomain) = None"
    and "uniqRecords v (case recordSets b (ResourceGroup (config d), zone, subDomain) of
                          None \<Rightarrow> zeroRecordSet | Some rs \<Rightarrow> rs) = Some uniq"
    and "\<And>rec. fault b (RecordSetsCreateOrUpdate (ResourceGroup (config d)) zone subDomain rec) = None"
  shows "map_option (\<lambda>rs. set (txtValues rs))
           (recordSets (snd (Present x PerIteration seed' d domain token keyAuth
                 (snd (Present x PerIteration seed d domain token keyAuth b))))
              (ResourceGroup (config d), zone, subDomain))
         = map_option (\<lambda>rs. set (txtValues rs))
           (recordSets (snd (Present x PerIteration seed d domain token keyAuth b))
              (ResourceGroup (config d), zone, subDomain))"
proof -
  let ?rg = "ResourceGroup (config d)"
  let ?key = "(?rg, zone, subDomain)"
  let ?ks = "rangeOrder seed uniq"
  let ?rec = "request d subDomain (txtRecordsOf PerIteration ?ks)"
  let ?b' = "snd (Present x PerIteration seed d domain token keyAuth b)"
  have same1: "fault b1 = fault b" "zones b1 = zones b"
    using getHostedZoneID_preserves [OF assms(2)] by simp_all
  have first: "Present x PerIteration seed d domain token keyAuth b =
           (Ok, b1\<lparr>calls := calls b1 @
                      [RecordSetsGet ?rg zone subDomain,
                       RecordSetsCreateOrUpdate ?rg zone subDomain ?rec],
                    recordSets := (recordSets b)(?key \<mapsto> ?rec)\<rparr>)"
    by (rule Present_Ok [OF assms(1-6) assms(7)])
  have f': "fault ?b' = fault b" and z': "zones ?b' = zones b"
    and r': "recordSets ?b' ?key = Some ?rec"
    by (simp_all add: first same1)
  have "fst (getHostedZoneID x d fqdn ?b') = Inr zone"
    using getHostedZoneID_result [OF f' z', of x d fqdn] assms(2) by simp
  then have zone': "getHostedZoneID x d fqdn ?b' = (Inr zone, snd (getHostedZoneID x d fqdn ?b'))"
    by (simp add: prod_eq_iff)
  have rec: "?rec = request d subDomain (map single ?ks)"
    by (simp add: txtRecordsOf_PerIteration)
  from uniqRecords_no_nil [OF entries_request_single, of v d subDomain ?ks]
  obtain uniq' where u': "uniqRecords v ?rec = Some uniq'"
    unfolding rec by blast
  have v_in: "v \<in> set uniq"
    using uniqRecords_set [OF assms(6)] by simp
  have keys: "set uniq' = set uniq"
    using uniqRecords_set [OF u'] v_in
    by (simp add: rec firstStrings_request_single set_rangeOrder insert_absorb)
  have u'': "uniqRecords v (case recordSets ?b' ?key of None \<Rightarrow> zeroRecordSet | Some rs \<Rightarrow> rs)
               = Some uniq'"
    using u' by (simp only: r' option.case)
  have g': "fault ?b' (RecordSetsGet ?rg zone subDomain) = None"
    using assms(5) by (simp add: f')
  have w': "fault ?b' (RecordSetsCreateOrUpdate ?rg zone subDomain
               (request d subDomain (txtRecordsOf PerIteration (rangeOrder seed' uniq')))) = None"
    using assms(7) by (simp add: f')
  note second = Present_Ok [OF assms(1) zone' assms(3) assms(4) g' u'' w', of token]
  have "map_option (\<lambda>rs. set (txtValues rs))
           (recordSets (snd (Present x PerIteration seed' d domain token keyAuth ?b')) ?key)
          = Some (set uniq')"
    by (simp add: second txtValues_request_PerIteration set_rangeOrder)
  moreover have "map_option (\<lambda>rs. set (txtValues rs)) (recordSets ?b' ?key) = Some (set uniq)"
    by (simp only: r' option.map txtValues_request_PerIteration set_rangeOrder)
  ultimately show ?thesis
    by (simp only: keys)
qed

lemma Present_PerLoop_one_value:
  assumes "GetRecord x domain keyAuth = (fqdn, v)"
    and "getHostedZoneID x d fqdn b = (Inr zone, b1)"
    and "NewRecordSetsClient x (SubscriptionID (config d)) (authorizer d) = None"
    and "ExtractSubDomain x fqdn zone = Inr subDomain"
    and "fault b (RecordSetsGet (ResourceGroup (config d)) zone subDomain) = None"
    and "uniqRecords v (case recordSets b (ResourceGroup (config d), zone, subDomain) of
                          None \<Rightarrow> zeroRecordSet | Some rs \<Rightarrow> rs) = Some uniq"
    and "fault b (RecordSetsCreateOrUpdate (ResourceGroup (config d)) zone subDomain
                    (request d subDomain (txtRecordsOf PerLoop (rangeOrder seed uniq)))) = None"
  shows "map_option txtValues
           (recordSets (snd (Present x PerLoop seed d domain token keyAuth b))
              (ResourceGroup (config d), zone, subDomain))
         = Some (replicate (length uniq) (last (rangeOrder seed uniq)))"
  by (simp add: Present_Ok [OF assms] txtValues_request_PerLoop length_rangeOrder)

lemma Present_PerLoop_never_additive:
  assumes "GetRecord x domain keyAuth = (fqdn, v)"
    and "getHostedZoneID x d fqdn b = (Inr zone, b1)"
    and "NewRecordSetsClient x (SubscriptionID (config d)) (authorizer d) = None"
    and "ExtractSubDomain x fqdn zone = Inr subDomain"
    and "fault b (RecordSetsGet (ResourceGroup (config d)) zone subDomain) = None"
    and "uniqRecords v (case recordSets b (ResourceGroup (config d), zone, subDomain) of
                          None \<Rightarrow> zeroRecordSet | Some rs \<Rightarrow> rs) = Some uniq"
    and "fault b (RecordSetsCreateOrUpdate (ResourceGroup (config d)) zone subDomain
                    (request d subDomain (txtRecordsOf PerLoop (rangeOrder seed uniq)))) = None"
    and "s \<in> set (firstStrings (case recordSets b (ResourceGroup (config d), zone, subDomain) of
                          None \<Rightarrow> zeroRecordSet | Some rs \<Rightarrow> rs))"
    and "s \<noteq> v"
  shows "map_option (\<lambda>rs. set (txtValues rs))
           (recordSets (snd (Present x PerLoop seed d domain token keyAuth b))
              (ResourceGroup (config d), zone, subDomain))
         \<noteq> Some (insert v (set (firstStrings
              (case recordSets b (ResourceGroup (config d), zone, subDomain) of
                 None \<Rightarrow> zeroRecordSet | Some rs \<Rightarrow> rs))))"
proof
  let ?old = "case recordSets b (ResourceGroup (config d), zone, subDomain) of
                 None \<Rightarrow> zeroRecordSet | Some rs \<Rightarrow> rs"
  let ?k = "last (rangeOrder seed uniq)"
  assume "map_option (\<lambda>rs. set (txtValues rs))
           (recordSets (snd (Present x PerLoop seed d domain token keyAuth b))
              (ResourceGroup (config d), zone, subDomain))
         = Some (insert v (set (firstStrings ?old)))"
  then have "set (replicate (length uniq) ?k) = insert v (set (firstStrings ?old))"
    by (simp add: Present_Ok [OF assms(1-7)] txtValues_request_PerLoop length_rangeOrder)
  moreover have "set (replicate (length uniq) ?k) \<subseteq> {?k}"
    by auto
  ultimately have "v = ?k" and "s = ?k"
    using assms(8) by auto
  with assms(9) show False by simp
qed

section \<open>Present in the scenario\<close>

lemma example_getHostedZoneID:
  "f (ZonesGet ''rg'' ''example.com'') = None \<Longrightarrow>
   getHostedZoneID (exampleExternals []) exampleProvider fqdn (exampleBackend rs f)
     = (Inr ''example.com'',
        (exampleBackend rs f)\<lparr>calls := [FindZone fqdn, ZonesGet ''rg'' ''example.com'']\<rparr>)"
  by (simp add: exampleExternals_def getHostedZoneID_def exampleBackend_def exampleProvider_def
      exampleConfig_def dc_Get_def logCall_def UnFqdn_def EnvZoneName_def to_String_def)

lemma example_externals:
  "GetRecord (exampleExternals []) domain keyAuth = (''_acme-challenge.'' @ domain @ ''.'', keyAuth)"
  "NewRecordSetsClient (exampleExternals []) s c = None"
  "ExtractSubDomain (exampleExternals []) fqdn zone = Inr ''_acme-challenge''"
  by (simp_all add: exampleExternals_def)

lemma example_config:
  "ResourceGroup (config exampleProvider) = ''rg''"
  "SubscriptionID (config exampleProvider) = ''sub''"
  "TTL (config exampleProvider) = 60"
  by (simp_all add: exampleProvider_def exampleConfig_def)

lemma example_read:
  "rsc_Get ((exampleBackend [exampleKey \<mapsto> rs] (\<lambda>c. None))\<lparr>calls := cs\<rparr>)
      (ResourceGroup (config exampleProvider)) ''example.com'' ''_acme-challenge''
     = (Inr rs, (exampleBackend [exampleKey \<mapsto> rs] (\<lambda>c. None))
                  \<lparr>calls := cs @ [RecordSetsGet ''rg'' ''example.com'' ''_acme-challenge'']\<rparr>)"
  by (simp add: rsc_Get_def logCall_def exampleBackend_def example_config exampleKey_def)

lemma example_Present_state:
  assumes "zones b (''rg'', ''example.com'') = Some \<lparr>ZoneName = Some ''example.com''\<rparr>"
    and "fault b = (\<lambda>c. None)"
    and "uniqRecords v (case recordSets b exampleKey of None \<Rightarrow> zeroRecordSet | Some rs \<Rightarrow> rs)
           = Some uniq"
  shows "Present (exampleExternals []) lv seed exampleProvider ''example.com'' token v b =
     (Ok, b\<lparr>calls := calls b @
                [FindZone ''_acme-challenge.example.com.'', ZonesGet ''rg'' ''example.com'',
                 RecordSetsGet ''rg'' ''example.com'' ''_acme-challenge'',
                 RecordSetsCreateOrUpdate ''rg'' ''example.com'' ''_acme-challenge''
                   (request exampleProvider ''_acme-challenge'' (txtRecordsOf lv (rangeOrder seed uniq)))],
             recordSets := (recordSets b)(exampleKey \<mapsto>
                request exampleProvider ''_acme-challenge'' (txtRecordsOf lv (rangeOrder seed uniq)))\<rparr>)"
proof -
  let ?fqdn = "''_acme-challenge.example.com.''"
  let ?b1 = "b\<lparr>calls := calls b @ [FindZone ?fqdn, ZonesGet ''rg'' ''example.com'']\<rparr>"
  have z: "getHostedZoneID (exampleExternals []) exampleProvider ?fqdn b = (Inr ''example.com'', ?b1)"
    using assms(1,2)
    by (simp add: exampleExternals_def getHostedZoneID_def exampleProvider_def
      exampleConfig_def dc_Get_def logCall_def UnFqdn_def EnvZoneName_def to_String_def)
  have e: "GetRecord (exampleExternals []) ''example.com'' v = (?fqdn, v)"
    by (simp add: example_externals)
  have u: "uniqRecords v (case recordSets b (ResourceGroup (config exampleProvider), ''example.com'',
              ''_acme-challenge'') of None \<Rightarrow> zeroRecordSet | Some rs \<Rightarrow> rs) = Some uniq"
    using assms(3) by (simp add: exampleKey_def example_config)
  note P = Present_Ok [OF e z example_externals(2) example_externals(3) _ u, of lv seed token]
  show ?thesis
    using P assms(2) by (simp add: example_config exampleKey_def)
qed

lemma example_first_Present:
  "Present (exampleExternals []) lv seed exampleProvider ''example.com'' ''token'' ''abc123''
       (exampleBackend Map.empty (\<lambda>c. None))
     = (Ok, \<lparr>zones = [(''rg'', ''example.com'') \<mapsto> \<lparr>ZoneName = Some ''example.com''\<rparr>],
             recordSets = [exampleKey \<mapsto> request exampleProvider ''_acme-challenge'' [single ''abc123'']],
             fault = (\<lambda>c. None),
             calls = [FindZone ''_acme-challenge.example.com.'', ZonesGet ''rg'' ''example.com'',
                      RecordSetsGet ''rg'' ''example.com'' ''_acme-challenge'',
                      RecordSetsCreateOrUpdate ''rg'' ''example.com'' ''_acme-challenge''
                        (request exampleProvider ''_acme-challenge'' [single ''abc123''])]\<rparr>)"
proof -
  have "uniqRecords ''abc123''
          (case recordSets (exampleBackend Map.empty (\<lambda>c. None)) exampleKey of
             None \<Rightarrow> zeroRecordSet | Some rs \<Rightarrow> rs) = Some [''abc123'']"
    by (simp add: exampleBackend_def uniqRecords_zero)
  from example_Present_state [OF _ _ this, of lv seed "''token''"] show ?thesis
    by (simp add: exampleBackend_def rangeOrder_single txtRecordsOf_single)
qed

lemma uniqRecords_after_first:
  "uniqRecords ''def456'' (request exampleProvider ''_acme-challenge'' [single ''abc123''])
     = Some [''def456'', ''abc123'']"
  by (simp add: uniqRecords_def request_def single_def mapInsert_def)

lemma example_second_Present:
  "recordSets (snd (Present (exampleExternals []) lv' seed' exampleProvider ''example.com'' ''token'' ''def456''
       (snd (Present (exampleExternals []) lv seed exampleProvider ''example.com'' ''token'' ''abc123''
          (exampleBackend Map.empty (\<lambda>c. None)))))) exampleKey
     = Some (request exampleProvider ''_acme-challenge''
               (txtRecordsOf lv' (rangeOrder seed' [''def456'', ''abc123''])))
   \<and> fst (Present (exampleExternals []) lv' seed' exampleProvider ''example.com'' ''token'' ''def456''
       (snd (Present (exampleExternals []) lv seed exampleProvider ''example.com'' ''token'' ''abc123''
          (exampleBackend Map.empty (\<lambda>c. None))))) = Ok"
proof -
  let ?b = "snd (Present (exampleExternals []) lv seed exampleProvider ''example.com'' ''token'' ''abc123''
          (exampleBackend Map.empty (\<lambda>c. None)))"
  have z: "zones ?b (''rg'', ''example.com'') = Some \<lparr>ZoneName = Some ''example.com''\<rparr>"
    and f: "fault ?b = (\<lambda>c. None)"
    and r: "recordSets ?b exampleKey = Some (request exampleProvider ''_acme-challenge'' [single ''abc123''])"
    by (simp_all add: example_first_Present)
  have u: "uniqRecords ''def456'' (case recordSets ?b exampleKey of None \<Rightarrow> zeroRecordSet | Some rs \<Rightarrow> rs)
             = Some [''def456'', ''abc123'']"
    by (simp only: r option.case uniqRecords_after_first)
  show ?thesis
    by (simp add: example_Present_state [OF z f u])
qed

section \<open>The claims about Present\<close>

text \<open>
  C2. Suppose \<open>Present\<close> gets as far as the read and the read fails. If the error is
  a response error with status 404, \<open>Present\<close> goes on to the write, and what it
  writes is the record set of an empty read: the one entry of the new value; its
  result is the result of that write. With any other error \<open>Present\<close> returns the
  error behind \<open>azure: \<close>; the read is the last call in the log and the record sets
  are untouched.
\<close>

theorem Present_read_failure:
  assumes "GetRecord x domain keyAuth = (fqdn, v)"
    and "getHostedZoneID x d fqdn b = (Inr zone, b1)"
    and "NewRecordSetsClient x (SubscriptionID (config d)) (authorizer d) = None"
    and "ExtractSubDomain x fqdn zone = Inr subDomain"
    and "rsc_Get b1 (ResourceGroup (config d)) zone subDomain = (Inl err, b2)"
  shows "(errors_As err = Some StatusNotFound \<longrightarrow>
            Present x lv seed d domain token keyAuth b =
              (case rsc_CreateOrUpdate b2 (ResourceGroup (config d)) zone subDomain
                      \<lparr>Name = Some subDomain,
                       Properties = Some \<lparr>PropertiesTTL = Some (TTL (config d)),
                                          TxtRecords = [Some \<lparr>Value = [Some v]\<rparr>]\<rparr>\<rparr> of
                 (Some e, b') \<Rightarrow> (Err (WrapError ''azure: '' e), b')
               | (None, b') \<Rightarrow> (Ok, b'))) \<and>
         (errors_As err \<noteq> Some StatusNotFound \<longrightarrow>
            Present x lv seed d domain token keyAuth b = (Err (WrapError ''azure: '' err), b2) \<and>
            calls b2 = calls b1 @ [RecordSetsGet (ResourceGroup (config d)) zone subDomain] \<and>
            recordSets b2 = recordSets b)"
proof (intro conjI impI)
  assume nf: "errors_As err = Some StatusNotFound"
  have "Present x lv seed d domain token keyAuth b = upsert lv seed d zone subDomain v zeroRecordSet b2"
    using Present_after_read [OF assms, of lv seed token] nf by simp
  also have "\<dots> = (case rsc_CreateOrUpdate b2 (ResourceGroup (config d)) zone subDomain
                      (request d subDomain (txtRecordsOf lv (rangeOrder seed [v]))) of
                 (Some e, b') \<Rightarrow> (Err (WrapError ''azure: '' e), b')
               | (None, b') \<Rightarrow> (Ok, b'))"
    by (rule upsert_request [OF uniqRecords_zero])
  finally show "Present x lv seed d domain token keyAuth b =
              (case rsc_CreateOrUpdate b2 (ResourceGroup (config d)) zone subDomain
                      \<lparr>Name = Some subDomain,
                       Properties = Some \<lparr>PropertiesTTL = Some (TTL (config d)),
                                          TxtRecords = [Some \<lparr>Value = [Some v]\<rparr>]\<rparr>\<rparr> of
                 (Some e, b') \<Rightarrow> (Err (WrapError ''azure: '' e), b')
               | (None, b') \<Rightarrow> (Ok, b'))"
    by (simp add: rangeOrder_single txtRecordsOf_single request_def single_def)
next
  assume other: "errors_As err \<noteq> Some StatusNotFound"
  show "Present x lv seed d domain token keyAuth b = (Err (WrapError ''azure: '' err), b2)"
    using Present_after_read [OF assms, of lv seed token] other
    by (simp split: option.splits)
  show "calls b2 = calls b1 @ [RecordSetsGet (ResourceGroup (config d)) zone subDomain]"
    using rsc_Get_effect [OF assms(5)] by simp
  show "recordSets b2 = recordSets b"
    using rsc_Get_effect [OF assms(5)] getHostedZoneID_preserves [OF assms(2)] by simp
qed

text \<open>A first \<open>Present\<close> on an empty zone (the read reports 404) succeeds and stores
  exactly the new value; a read that is refused with 403 ends \<open>Present\<close> before any
  write.\<close>

theorem Present_read_failure_witness:
  "errors_As (ResponseError StatusNotFound ''NotFound'') = Some StatusNotFound \<and>
   Present (exampleExternals []) PerLoop [] exampleProvider ''example.com'' ''token'' ''abc123''
       (exampleBackend Map.empty (\<lambda>c. None))
     = (Ok, \<lparr>zones = [(''rg'', ''example.com'') \<mapsto> \<lparr>ZoneName = Some ''example.com''\<rparr>],
             recordSets = [exampleKey \<mapsto> request exampleProvider ''_acme-challenge'' [single ''abc123'']],
             fault = (\<lambda>c. None),
             calls = [FindZone ''_acme-challenge.example.com.'', ZonesGet ''rg'' ''example.com'',
                      RecordSetsGet ''rg'' ''example.com'' ''_acme-challenge'',
                      RecordSetsCreateOrUpdate ''rg'' ''example.com'' ''_acme-challenge''
                        (request exampleProvider ''_acme-challenge'' [single ''abc123''])]\<rparr>) \<and>
   errors_As (ResponseError 403 ''AuthorizationFailed'') \<noteq> Some StatusNotFound \<and>
   Present (exampleExternals []) PerIteration [] exampleProvider ''example.com'' ''token'' ''abc123''
       (exampleBackend Map.empty readForbidden)
     = (Err (WrapError ''azure: '' (ResponseError 403 ''AuthorizationFailed'')),
        \<lparr>zones = [(''rg'', ''example.com'') \<mapsto> \<lparr>ZoneName = Some ''example.com''\<rparr>],
         recordSets = Map.empty,
         fault = readForbidden,
         calls = [FindZone ''_acme-challenge.example.com.'', ZonesGet ''rg'' ''example.com'',
                  RecordSetsGet ''rg'' ''example.com'' ''_acme-challenge'']\<rparr>)"
proof -
  let ?b = "exampleBackend Map.empty (\<lambda>c. None)"
  let ?b1 = "?b\<lparr>calls := [FindZone ''_acme-challenge.example.com.'', ZonesGet ''rg'' ''example.com'']\<rparr>"
  let ?b2 = "?b\<lparr>calls := [FindZone ''_acme-challenge.example.com.'', ZonesGet ''rg'' ''example.com'',
                 RecordSetsGet ''rg'' ''example.com'' ''_acme-challenge'']\<rparr>"
  let ?c = "exampleBackend Map.empty readForbidden"
  let ?c1 = "?c\<lparr>calls := [FindZone ''_acme-challenge.example.com.'', ZonesGet ''rg'' ''example.com'']\<rparr>"
  let ?c2 = "?c\<lparr>calls := [FindZone ''_acme-challenge.example.com.'', ZonesGet ''rg'' ''example.com'',
                 RecordSetsGet ''rg'' ''example.com'' ''_acme-challenge'']\<rparr>"
  have z: "getHostedZoneID (exampleExternals []) exampleProvider ''_acme-challenge.example.com.'' ?b
             = (Inr ''example.com'', ?b1)"
    by (rule example_getHostedZoneID) simp
  have g: "rsc_Get ?b1 (ResourceGroup (config exampleProvider)) ''example.com'' ''_acme-challenge''
             = (Inl (ResponseError StatusNotFound ''NotFound''), ?b2)"
    by (simp add: rsc_Get_def logCall_def exampleBackend_def example_config)
  have zc: "getHostedZoneID (exampleExternals []) exampleProvider ''_acme-challenge.example.com.'' ?c
             = (Inr ''example.com'', ?c1)"
    by (rule example_getHostedZoneID) (simp add: readForbidden_def)
  have gc: "rsc_Get ?c1 (ResourceGroup (config exampleProvider)) ''example.com'' ''_acme-challenge''
             = (Inl (ResponseError 403 ''AuthorizationFailed''), ?c2)"
    by (simp add: rsc_Get_def logCall_def exampleBackend_def example_config readForbidden_def)
  have e: "GetRecord (exampleExternals []) ''example.com'' ''abc123''
             = (''_acme-challenge.example.com.'', ''abc123'')"
    by (simp add: example_externals)
  note ok = Present_read_failure [OF e z example_externals(2) example_externals(3) g, of PerLoop "[]" "''token''"]
  note ko = Present_read_failure [OF e zc example_externals(2) example_externals(3) gc, of PerIteration "[]" "''token''"]
  show ?thesis
    using ok ko
    by (simp add: rsc_CreateOrUpdate_def logCall_def exampleBackend_def example_config
        exampleKey_def request_def single_def StatusNotFound_def)
qed

text \<open>
  Suppose the read returns a record set without nil entries. The keys of
  \<open>uniqRecords\<close> are the new value and the first strings of the entries, nothing
  else; for both semantics of the loop variable the record set that is sent has entries
  of one string each, taken from those keys, so no second or later string of an entry
  is carried over.
\<close>

lemma Present_first_strings_bound:
  assumes "GetRecord x domain keyAuth = (fqdn, v)"
    and "getHostedZoneID x d fqdn b = (Inr zone, b1)"
    and "NewRecordSetsClient x (SubscriptionID (config d)) (authorizer d) = None"
    and "ExtractSubDomain x fqdn zone = Inr subDomain"
    and "rsc_Get b1 (ResourceGroup (config d)) zone subDomain = (Inr rset, b2)"
    and "list_all (\<lambda>e. e \<noteq> None) (entries rset)"
  shows "\<exists>uniq rec.
           uniqRecords v rset = Some uniq \<and>
           set uniq = insert v (set (firstStrings rset)) \<and>
           calls (snd (Present x lv seed d domain token keyAuth b)) =
             calls b2 @ [RecordSetsCreateOrUpdate (ResourceGroup (config d)) zone subDomain rec] \<and>
           Name rec = Some subDomain \<and>
           set (entries rec) \<subseteq> single ` insert v (set (firstStrings rset)) \<and>
           set (txtValues rec) \<subseteq> insert v (set (firstStrings rset)) \<and>
           (lv = PerIteration \<longrightarrow> set (txtValues rec) = insert v (set (firstStrings rset)))"
proof -
  from uniqRecords_no_nil [OF assms(6)] obtain uniq where u: "uniqRecords v rset = Some uniq"
    by blast
  let ?rec = "request d subDomain (txtRecordsOf lv (rangeOrder seed uniq))"
  have s: "set uniq = insert v (set (firstStrings rset))"
    by (rule uniqRecords_set [OF u])
  have p: "Present x lv seed d domain token keyAuth b = upsert lv seed d zone subDomain v rset b2"
    using Present_after_read [OF assms(1-5), of lv seed token] by simp
  have c: "calls (snd (Present x lv seed d domain token keyAuth b)) =
             calls b2 @ [RecordSetsCreateOrUpdate (ResourceGroup (config d)) zone subDomain ?rec]"
    by (simp only: p upsert_calls [OF u])
  have n: "Name ?rec = Some subDomain"
    by (simp add: request_def)
  have e: "set (entries ?rec) \<subseteq> single ` insert v (set (firstStrings rset))"
    using txtRecordsOf_subset [of lv "rangeOrder seed uniq"]
    by (simp add: entries_def request_def set_rangeOrder s)
  have t: "set (txtValues ?rec) \<subseteq> insert v (set (firstStrings rset))"
    using txtValues_request_subset [of d subDomain lv "rangeOrder seed uniq"]
    by (simp add: set_rangeOrder s)
  have i: "lv = PerIteration \<longrightarrow> set (txtValues ?rec) = insert v (set (firstStrings rset))"
    by (simp add: txtValues_request_PerIteration set_rangeOrder s)
  from u s c n e t i show ?thesis by blast
qed

text \<open>An entry of the two strings \<open>abc123\<close> and \<open>tail\<close>: \<open>abc123\<close> is kept,
  \<open>tail\<close> is not.\<close>

lemma Present_first_strings_bound_example:
  "txtValues (existingRecordSet [[Some ''abc123'', Some ''tail'']]) = [''abc123'', ''tail''] \<and>
   firstStrings (existingRecordSet [[Some ''abc123'', Some ''tail'']]) = [''abc123''] \<and>
   Present (exampleExternals []) PerIteration [] exampleProvider ''example.com'' ''token'' ''def456''
       (exampleBackend [exampleKey \<mapsto> existingRecordSet [[Some ''abc123'', Some ''tail'']]] (\<lambda>c. None))
     = (Ok, \<lparr>zones = [(''rg'', ''example.com'') \<mapsto> \<lparr>ZoneName = Some ''example.com''\<rparr>],
             recordSets = [exampleKey \<mapsto> request exampleProvider ''_acme-challenge''
                             [single ''def456'', single ''abc123'']],
             fault = (\<lambda>c. None),
             calls = [FindZone ''_acme-challenge.example.com.'', ZonesGet ''rg'' ''example.com'',
                      RecordSetsGet ''rg'' ''example.com'' ''_acme-challenge'',
                      RecordSetsCreateOrUpdate ''rg'' ''example.com'' ''_acme-challenge''
                        (request exampleProvider ''_acme-challenge''
                           [single ''def456'', single ''abc123''])]\<rparr>) \<and>
   txtValues (request exampleProvider ''_acme-challenge'' [single ''def456'', single ''abc123''])
     = [''def456'', ''abc123'']"
proof -
  let ?rs = "existingRecordSet [[Some ''abc123'', Some ''tail'']]"
  let ?b = "exampleBackend [exampleKey \<mapsto> ?rs] (\<lambda>c. None)"
  let ?cs = "[FindZone ''_acme-challenge.example.com.'', ZonesGet ''rg'' ''example.com'']"
  have e: "GetRecord (exampleExternals []) ''example.com'' ''def456''
             = (''_acme-challenge.example.com.'', ''def456'')"
    by (simp add: example_externals)
  have z: "getHostedZoneID (exampleExternals []) exampleProvider ''_acme-challenge.example.com.'' ?b
             = (Inr ''example.com'', ?b\<lparr>calls := ?cs\<rparr>)"
    by (rule example_getHostedZoneID) simp
  have n: "list_all (\<lambda>e. e \<noteq> None) (entries ?rs)"
    by (simp add: entries_def existingRecordSet_def)
  have u: "uniqRecords ''def456'' ?rs = Some [''def456'', ''abc123'']"
    by (simp add: uniqRecords_def existingRecordSet_def mapInsert_def)
  have v: "txtValues ?rs = [''abc123'', ''tail'']" "firstStrings ?rs = [''abc123'']"
      "txtValues (request exampleProvider ''_acme-challenge'' [single ''def456'', single ''abc123''])
         = [''def456'', ''abc123'']"
    by (simp_all add: txtValues_def firstStrings_def entries_def existingRecordSet_def
        allStrings_def firstString_def request_def single_def)
  have s: "Present (exampleExternals []) PerIteration [] exampleProvider ''example.com'' ''token''
             ''def456'' ?b
           = (Ok, ?b\<lparr>calls := calls ?b @
                [FindZone ''_acme-challenge.example.com.'', ZonesGet ''rg'' ''example.com'',
                 RecordSetsGet ''rg'' ''example.com'' ''_acme-challenge'',
                 RecordSetsCreateOrUpdate ''rg'' ''example.com'' ''_acme-challenge''
                   (request exampleProvider ''_acme-challenge''
                      (txtRecordsOf PerIteration (rangeOrder [] [''def456'', ''abc123''])))],
             recordSets := (recordSets ?b)(exampleKey \<mapsto>
                request exampleProvider ''_acme-challenge''
                  (txtRecordsOf PerIteration (rangeOrder [] [''def456'', ''abc123''])))\<rparr>)"
    by (rule example_Present_state) (simp_all add: exampleBackend_def u)
  note t = Present_first_strings_bound [OF e z example_externals(2) example_externals(3)
      example_read n, of PerIteration "[]" "''token''"]
  from t s v show ?thesis
    by (simp add: txtRecordsOf_PerIteration exampleBackend_def)
qed

text \<open>
  What is sent, exactly: with a variable for each iteration one entry for each key, in
  the order of the iteration; with one variable for the loop as many entries as there
  are keys, each carrying the key of the last iteration.
\<close>

lemma Present_written_entries:
  assumes "GetRecord x domain keyAuth = (fqdn, v)"
    and "getHostedZoneID x d fqdn b = (Inr zone, b1)"
    and "NewRecordSetsClient x (SubscriptionID (config d)) (authorizer d) = None"
    and "ExtractSubDomain x fqdn zone = Inr subDomain"
    and "rsc_Get b1 (ResourceGroup (config d)) zone subDomain = (Inr rset, b2)"
    and "list_all (\<lambda>e. e \<noteq> None) (entries rset)"
  shows "\<exists>uniq.
           uniqRecords v rset = Some uniq \<and>
           set uniq = insert v (set (firstStrings rset)) \<and>
           distinct uniq \<and>
           calls (snd (Present x lv seed d domain token keyAuth b)) =
             calls b2 @ [RecordSetsCreateOrUpdate (ResourceGroup (config d)) zone subDomain
               (request d subDomain
                  (case lv of
                     PerIteration \<Rightarrow> map single (rangeOrder seed uniq)
                   | PerLoop \<Rightarrow> replicate (length uniq) (single (last (rangeOrder seed uniq)))))]"
proof -
  from uniqRecords_no_nil [OF assms(6)] obtain uniq where u: "uniqRecords v rset = Some uniq"
    by blast
  have p: "Present x lv seed d domain token keyAuth b = upsert lv seed d zone subDomain v rset b2"
    using Present_after_read [OF assms(1-5), of lv seed token] by simp
  have t: "txtRecordsOf lv (rangeOrder seed uniq) =
             (case lv of
                PerIteration \<Rightarrow> map single (rangeOrder seed uniq)
              | PerLoop \<Rightarrow> replicate (length uniq) (single (last (rangeOrder seed uniq))))"
    by (cases lv) (simp_all add: txtRecordsOf_PerIteration txtRecordsOf_PerLoop length_rangeOrder)
  have c: "calls (snd (Present x lv seed d domain token keyAuth b)) =
             calls b2 @ [RecordSetsCreateOrUpdate (ResourceGroup (config d)) zone subDomain
               (request d subDomain
                  (case lv of
                     PerIteration \<Rightarrow> map single (rangeOrder seed uniq)
                   | PerLoop \<Rightarrow> replicate (length uniq) (single (last (rangeOrder seed uniq)))))]"
    by (simp only: p upsert_calls [OF u] t)
  from u uniqRecords_set [OF u] uniqRecords_distinct [OF u] c show ?thesis by blast
qed

text \<open>
  C6 at the input where it fails, with one loop variable for the whole loop (Go
  before 1.22). The record set holds one entry of the two strings \<open>abc123\<close> and
  \<open>tail\<close>. The first string \<open>abc123\<close> is a key of \<open>uniqRecords\<close> and \<open>tail\<close> is not,
  as the claim says; but when the iteration of \<open>Present\<close> of \<open>def456\<close> ends with
  \<open>def456\<close>, the record set that is written holds \<open>def456\<close> twice and the first
  string \<open>abc123\<close> is not in it.
\<close>

theorem Present_PerLoop_drops_first_string:
  "firstStrings (existingRecordSet [[Some ''abc123'', Some ''tail'']]) = [''abc123''] \<and>
   uniqRecords ''def456'' (existingRecordSet [[Some ''abc123'', Some ''tail'']])
     = Some [''def456'', ''abc123''] \<and>
   Present (exampleExternals []) PerLoop [1] exampleProvider ''example.com'' ''token'' ''def456''
       (exampleBackend [exampleKey \<mapsto> existingRecordSet [[Some ''abc123'', Some ''tail'']]] (\<lambda>c. None))
     = (Ok, \<lparr>zones = [(''rg'', ''example.com'') \<mapsto> \<lparr>ZoneName = Some ''example.com''\<rparr>],
             recordSets = [exampleKey \<mapsto> request exampleProvider ''_acme-challenge''
                             [single ''def456'', single ''def456'']],
             fault = (\<lambda>c. None),
             calls = [FindZone ''_acme-challenge.example.com.'', ZonesGet ''rg'' ''example.com'',
                      RecordSetsGet ''rg'' ''example.com'' ''_acme-challenge'',
                      RecordSetsCreateOrUpdate ''rg'' ''example.com'' ''_acme-challenge''
                        (request exampleProvider ''_acme-challenge''
                           [single ''def456'', single ''def456''])]\<rparr>) \<and>
   txtValues (request exampleProvider ''_acme-challenge'' [single ''def456'', single ''def456''])
     = [''def456'', ''def456''] \<and>
   ''abc123'' \<notin> set [''def456'', ''def456'']"
proof -
  let ?rs = "existingRecordSet [[Some ''abc123'', Some ''tail'']]"
  let ?b = "exampleBackend [exampleKey \<mapsto> ?rs] (\<lambda>c. None)"
  have u: "uniqRecords ''def456'' ?rs = Some [''def456'', ''abc123'']"
    by (simp add: uniqRecords_def existingRecordSet_def mapInsert_def)
  have f: "firstStrings ?rs = [''abc123'']"
    by (simp add: firstStrings_def entries_def existingRecordSet_def firstString_def)
  have o: "rangeOrder [1] [''def456'', ''abc123''] = [''abc123'', ''def456'']"
    by (simp add: insertAt_def)
  have w: "txtRecordsOf PerLoop (rangeOrder [1] [''def456'', ''abc123''])
             = [single ''def456'', single ''def456'']"
    unfolding o by (simp add: txtRecordsOf_PerLoop)
  have s: "Present (exampleExternals []) PerLoop [1] exampleProvider ''example.com'' ''token''
             ''def456'' ?b
           = (Ok, ?b\<lparr>calls := calls ?b @
                [FindZone ''_acme-challenge.example.com.'', ZonesGet ''rg'' ''example.com'',
                 RecordSetsGet ''rg'' ''example.com'' ''_acme-challenge'',
                 RecordSetsCreateOrUpdate ''rg'' ''example.com'' ''_acme-challenge''
                   (request exampleProvider ''_acme-challenge''
                      (txtRecordsOf PerLoop (rangeOrder [1] [''def456'', ''abc123''])))],
             recordSets := (recordSets ?b)(exampleKey \<mapsto>
                request exampleProvider ''_acme-challenge''
                  (txtRecordsOf PerLoop (rangeOrder [1] [''def456'', ''abc123''])))\<rparr>)"
    by (rule example_Present_state) (simp_all add: exampleBackend_def u)
  have t: "txtValues (request exampleProvider ''_acme-challenge'' [single ''def456'', single ''def456''])
             = [''def456'', ''def456'']"
    by (simp add: txtValues_request allStrings_single)
  show ?thesis
    unfolding s w u f t by (simp add: exampleBackend_def)
qed

text \<open>
  C9. Suppose the read returns a record set. \<open>Present\<close> does what lines 59 to 87 do
  on that record set without its malformed entries (an empty string list, a nil first
  string): they contribute nothing. Unless an entry itself is nil there is no panic;
  and when every entry is malformed the record set sent holds the new value alone.
\<close>

theorem Present_malformed_entries:
  assumes "GetRecord x domain keyAuth = (fqdn, v)"
    and "getHostedZoneID x d fqdn b = (Inr zone, b1)"
    and "NewRecordSetsClient x (SubscriptionID (config d)) (authorizer d) = None"
    and "ExtractSubDomain x fqdn zone = Inr subDomain"
    and "rsc_Get b1 (ResourceGroup (config d)) zone subDomain = (Inr rset, b2)"
  shows "Present x lv seed d domain token keyAuth b
           = upsert lv seed d zone subDomain v (dropMalformed rset) b2 \<and>
         entries (dropMalformed rset) = filter (\<lambda>e. \<not> malformed e) (entries rset) \<and>
         (list_all (\<lambda>e. e \<noteq> None) (entries rset) \<longrightarrow>
            fst (Present x lv seed d domain token keyAuth b) \<noteq> Panic) \<and>
         (list_all malformed (entries rset) \<longrightarrow>
            calls (snd (Present x lv seed d domain token keyAuth b)) =
              calls b2 @ [RecordSetsCreateOrUpdate (ResourceGroup (config d)) zone subDomain
                \<lparr>Name = Some subDomain,
                 Properties = Some \<lparr>PropertiesTTL = Some (TTL (config d)),
                                    TxtRecords = [Some \<lparr>Value = [Some v]\<rparr>]\<rparr>\<rparr>])"
proof -
  have p: "Present x lv seed d domain token keyAuth b = upsert lv seed d zone subDomain v rset b2"
    using Present_after_read [OF assms, of lv seed token] by simp
  have a: "Present x lv seed d domain token keyAuth b
             = upsert lv seed d zone subDomain v (dropMalformed rset) b2"
    by (simp only: p upsert_dropMalformed)
  have n: "fst (Present x lv seed d domain token keyAuth b) \<noteq> Panic"
    if "list_all (\<lambda>e. e \<noteq> None) (entries rset)"
  proof -
    from uniqRecords_no_nil [OF that] obtain uniq where "uniqRecords v rset = Some uniq"
      by blast
    then show ?thesis
      by (simp only: p) (rule upsert_not_Panic)
  qed
  have m: "calls (snd (Present x lv seed d domain token keyAuth b)) =
              calls b2 @ [RecordSetsCreateOrUpdate (ResourceGroup (config d)) zone subDomain
                \<lparr>Name = Some subDomain,
                 Properties = Some \<lparr>PropertiesTTL = Some (TTL (config d)),
                                    TxtRecords = [Some \<lparr>Value = [Some v]\<rparr>]\<rparr>\<rparr>]"
    if "list_all malformed (entries rset)"
    using upsert_calls [OF uniqRecords_all_malformed [OF that], where lv=lv and seed=seed and d=d and zone=zone and subDomain=subDomain and b=b2 and v=v]
    by (simp add: p rangeOrder_single txtRecordsOf_single request_def single_def)
  from a n m entries_dropMalformed show ?thesis by blast
qed

text \<open>Two malformed entries, one empty and one with a nil first string: \<open>Present\<close>
  succeeds and stores the new value only.\<close>

theorem Present_malformed_entries_witness:
  "list_all malformed (entries (existingRecordSet [[], [None, Some ''abc'']])) \<and>
   Present (exampleExternals []) PerLoop [7] exampleProvider ''example.com'' ''token'' ''abc123''
       (exampleBackend [exampleKey \<mapsto> existingRecordSet [[], [None, Some ''abc'']]] (\<lambda>c. None))
     = (Ok, \<lparr>zones = [(''rg'', ''example.com'') \<mapsto> \<lparr>ZoneName = Some ''example.com''\<rparr>],
             recordSets = [exampleKey \<mapsto> request exampleProvider ''_acme-challenge''
                             [single ''abc123'']],
             fault = (\<lambda>c. None),
             calls = [FindZone ''_acme-challenge.example.com.'', ZonesGet ''rg'' ''example.com'',
                      RecordSetsGet ''rg'' ''example.com'' ''_acme-challenge'',
                      RecordSetsCreateOrUpdate ''rg'' ''example.com'' ''_acme-challenge''
                        (request exampleProvider ''_acme-challenge'' [single ''abc123''])]\<rparr>)"
proof -
  let ?rs = "existingRecordSet [[], [None, Some ''abc'']]"
  let ?b = "exampleBackend [exampleKey \<mapsto> ?rs] (\<lambda>c. None)"
  let ?cs = "[FindZone ''_acme-challenge.example.com.'', ZonesGet ''rg'' ''example.com'']"
  have e: "GetRecord (exampleExternals []) ''example.com'' ''abc123''
             = (''_acme-challenge.example.com.'', ''abc123'')"
    by (simp add: example_externals)
  have z: "getHostedZoneID (exampleExternals []) exampleProvider ''_acme-challenge.example.com.'' ?b
             = (Inr ''example.com'', ?b\<lparr>calls := ?cs\<rparr>)"
    by (rule example_getHostedZoneID) simp
  have m: "list_all malformed (entries ?rs)"
    by (simp add: entries_def existingRecordSet_def malformed_def)
  have u: "uniqRecords ''abc123'' ?rs = Some [''abc123'']"
    by (rule uniqRecords_all_malformed [OF m])
  have s: "Present (exampleExternals []) PerLoop [7] exampleProvider ''example.com'' ''token''
             ''abc123'' ?b
           = (Ok, ?b\<lparr>calls := calls ?b @
                [FindZone ''_acme-challenge.example.com.'', ZonesGet ''rg'' ''example.com'',
                 RecordSetsGet ''rg'' ''example.com'' ''_acme-challenge'',
                 RecordSetsCreateOrUpdate ''rg'' ''example.com'' ''_acme-challenge''
                   (request exampleProvider ''_acme-challenge''
                      (txtRecordsOf PerLoop (rangeOrder [7] [''abc123''])))],
             recordSets := (recordSets ?b)(exampleKey \<mapsto>
                request exampleProvider ''_acme-challenge''
                  (txtRecordsOf PerLoop (rangeOrder [7] [''abc123''])))\<rparr>)"
    by (rule example_Present_state) (simp_all add: exampleBackend_def u)
  note t = Present_malformed_entries [OF e z example_externals(2) example_externals(3)
      example_read, of PerLoop "[7]" "''token''"]
  from t s m show ?thesis
    by (simp add: rangeOrder_single txtRecordsOf_single exampleBackend_def)
qed

text \<open>
  C4 at the input where it fails, with one loop variable for the whole loop (Go
  before 1.22). \<open>Present\<close> of \<open>abc123\<close> on the empty zone, then \<open>Present\<close> of
  \<open>def456\<close>: both calls succeed, and the record set holds two entries of the same
  string. Which string depends on the order of the iteration: when \<open>abc123\<close> comes
  last the new value \<open>def456\<close> is not published at all, when \<open>def456\<close> comes last
  \<open>abc123\<close> is overwritten.
\<close>

theorem Present_PerLoop_loses_values:
  "fst (Present (exampleExternals []) PerLoop [] exampleProvider ''example.com'' ''token'' ''def456''
       (snd (Present (exampleExternals []) PerLoop [] exampleProvider ''example.com'' ''token'' ''abc123''
          (exampleBackend Map.empty (\<lambda>c. None))))) = Ok \<and>
   map_option txtValues
     (recordSets (snd (Present (exampleExternals []) PerLoop [] exampleProvider ''example.com'' ''token'' ''def456''
       (snd (Present (exampleExternals []) PerLoop [] exampleProvider ''example.com'' ''token'' ''abc123''
          (exampleBackend Map.empty (\<lambda>c. None)))))) exampleKey)
     = Some [''abc123'', ''abc123''] \<and>
   map_option txtValues
     (recordSets (snd (Present (exampleExternals []) PerLoop [1] exampleProvider ''example.com'' ''token'' ''def456''
       (snd (Present (exampleExternals []) PerLoop [] exampleProvider ''example.com'' ''token'' ''abc123''
          (exampleBackend Map.empty (\<lambda>c. None)))))) exampleKey)
     = Some [''def456'', ''def456'']"
  by (simp add: example_second_Present txtValues_request_PerLoop insertAt_def)

text \<open>
  C3 at the input where it fails, with one loop variable for the whole loop (Go
  before 1.22). The record set holds \<open>abc123\<close>. One \<open>Present\<close> of \<open>def456\<close> whose
  iteration ends with \<open>abc123\<close> leaves the values \<open>abc123\<close>; a second \<open>Present\<close> of
  \<open>def456\<close> whose iteration ends with \<open>def456\<close> leaves the values \<open>def456\<close>.
\<close>

theorem Present_PerLoop_not_idempotent:
  "map_option txtValues
     (recordSets (snd (Present (exampleExternals []) PerLoop [] exampleProvider ''example.com'' ''token'' ''def456''
          (exampleBackend [exampleKey \<mapsto> request exampleProvider ''_acme-challenge'' [single ''abc123'']]
             (\<lambda>c. None)))) exampleKey)
     = Some [''abc123'', ''abc123''] \<and>
   map_option txtValues
     (recordSets (snd (Present (exampleExternals []) PerLoop [1] exampleProvider ''example.com'' ''token'' ''def456''
       (snd (Present (exampleExternals []) PerLoop [] exampleProvider ''example.com'' ''token'' ''def456''
          (exampleBackend [exampleKey \<mapsto> request exampleProvider ''_acme-challenge'' [single ''abc123'']]
             (\<lambda>c. None)))))) exampleKey)
     = Some [''def456'', ''def456''] \<and>
   set [''abc123'', ''abc123''] \<noteq> set [''def456'', ''def456'']"
proof -
  let ?b0 = "exampleBackend [exampleKey \<mapsto> request exampleProvider ''_acme-challenge'' [single ''abc123'']]
             (\<lambda>c. None)"
  let ?once = "Present (exampleExternals []) PerLoop [] exampleProvider ''example.com'' ''token'' ''def456'' ?b0"
  have u0: "uniqRecords ''def456'' (case recordSets ?b0 exampleKey of None \<Rightarrow> zeroRecordSet | Some rs \<Rightarrow> rs)
             = Some [''def456'', ''abc123'']"
    by (simp add: exampleBackend_def uniqRecords_after_first)
  have once: "?once = (Ok, ?b0\<lparr>calls := calls ?b0 @
                [FindZone ''_acme-challenge.example.com.'', ZonesGet ''rg'' ''example.com'',
                 RecordSetsGet ''rg'' ''example.com'' ''_acme-challenge'',
                 RecordSetsCreateOrUpdate ''rg'' ''example.com'' ''_acme-challenge''
                   (request exampleProvider ''_acme-challenge''
                      (txtRecordsOf PerLoop (rangeOrder [] [''def456'', ''abc123''])))],
             recordSets := (recordSets ?b0)(exampleKey \<mapsto>
                request exampleProvider ''_acme-challenge''
                  (txtRecordsOf PerLoop (rangeOrder [] [''def456'', ''abc123''])))\<rparr>)"
    by (rule example_Present_state [OF _ _ u0]) (simp_all add: exampleBackend_def)
  have r1: "recordSets (snd ?once) exampleKey
              = Some (request exampleProvider ''_acme-challenge'' [single ''abc123'', single ''abc123''])"
    by (simp add: once txtRecordsOf_PerLoop)
  have u1: "uniqRecords ''def456'' (case recordSets (snd ?once) exampleKey of
               None \<Rightarrow> zeroRecordSet | Some rs \<Rightarrow> rs) = Some [''def456'', ''abc123'']"
    by (simp add: r1) (simp add: uniqRecords_def request_def single_def mapInsert_def)
  have z1: "zones (snd ?once) (''rg'', ''example.com'') = Some \<lparr>ZoneName = Some ''example.com''\<rparr>"
    and f1: "fault (snd ?once) = (\<lambda>c. None)"
    by (simp_all add: once) (simp_all add: exampleBackend_def)
  have r2: "recordSets (snd (Present (exampleExternals []) PerLoop [1] exampleProvider ''example.com''
               ''token'' ''def456'' (snd ?once))) exampleKey
              = Some (request exampleProvider ''_acme-challenge'' [single ''def456'', single ''def456''])"
    by (simp add: example_Present_state [OF z1 f1 u1] txtRecordsOf_PerLoop insertAt_def)
  have t: "txtValues (request exampleProvider ''_acme-challenge'' [single ''abc123'', single ''abc123''])
             = [''abc123'', ''abc123'']"
     "txtValues (request exampleProvider ''_acme-challenge'' [single ''def456'', single ''def456''])
             = [''def456'', ''def456'']"
    by (simp_all add: txtValues_request allStrings_single)
  show ?thesis
    unfolding r1 r2 option.map t by simp
qed

end
